theory Spec2Isabelle
  imports Complex_Main
begin

section \<open>Python strings\<close>

text \<open>
  A Python \<open>str\<close> is modelled as a \<open>string\<close>; a \<open>char\<close> stands for one character with
  a code point below 256, so \<open>length\<close> counts characters as \<open>len\<close> does. The
  character classes below are Python's, restricted to that range.
\<close>

abbreviation NL :: char where "NL \<equiv> CHR 0x0A"
abbreviation TAB :: char where "TAB \<equiv> CHR 0x09"
abbreviation BSL :: char where "BSL \<equiv> CHR 0x5C"
abbreviation DQ :: char where "DQ \<equiv> CHR 0x22"

datatype py_error =
  IndexError | KeyError | TypeError | AttributeError | ZeroDivisionError | ValueError

text \<open>\<open>str.isspace\<close> of one character.\<close>

definition isspace :: "char \<Rightarrow> bool" where
  "isspace c =
     (let n = (of_char c :: nat)
      in (9 \<le> n \<and> n \<le> 13) \<or> (28 \<le> n \<and> n \<le> 32) \<or> n = 133 \<or> n = 160)"

text \<open>What the regular expression class \<open>\d\<close> matches.\<close>

definition isdigit :: "char \<Rightarrow> bool" where
  "isdigit c = (let n = (of_char c :: nat) in 48 \<le> n \<and> n \<le> 57)"

definition startswith :: "string \<Rightarrow> string \<Rightarrow> bool" where
  "startswith s p = (take (length p) s = p)"

definition endswith :: "string \<Rightarrow> string \<Rightarrow> bool" where
  "endswith s p = (length p \<le> length s \<and> drop (length s - length p) s = p)"

text \<open>\<open>sub in s\<close> for strings.\<close>

fun contains :: "string \<Rightarrow> string \<Rightarrow> bool" where
  "contains [] sub = (sub = [])"
| "contains (c # cs) sub = (startswith (c # cs) sub \<or> contains cs sub)"

definition py_strip :: "string \<Rightarrow> string" where
  "py_strip s = rev (dropWhile isspace (rev (dropWhile isspace s)))"

text \<open>\<open>s.rstrip('\n')\<close>.\<close>

definition rstrip_nl :: "string \<Rightarrow> string" where
  "rstrip_nl s = rev (dropWhile (\<lambda>c. c = NL) (rev s))"

text \<open>\<open>s.split(sep)\<close> for a separator of one character: never an empty list.\<close>

fun py_split :: "char \<Rightarrow> string \<Rightarrow> string list" where
  "py_split sep [] = [[]]"
| "py_split sep (c # cs) =
     (if c = sep then [] # py_split sep cs
      else (case py_split sep cs of
              [] \<Rightarrow> [[c]]
            | w # ws \<Rightarrow> (c # w) # ws))"

text \<open>\<open>s.split()\<close>: the maximal runs of characters that are not whitespace; \<open>cur\<close> is
  the run being read.\<close>

fun split_ws_from :: "string \<Rightarrow> string \<Rightarrow> string list" where
  "split_ws_from cur [] = (if cur = [] then [] else [cur])"
| "split_ws_from cur (c # cs) =
     (if isspace c
      then (if cur = [] then split_ws_from [] cs else cur # split_ws_from [] cs)
      else split_ws_from (cur @ [c]) cs)"

definition py_split_ws :: "string \<Rightarrow> string list" where
  "py_split_ws s = split_ws_from [] s"

text \<open>\<open>sep.join(xs)\<close>.\<close>

fun py_join :: "string \<Rightarrow> string list \<Rightarrow> string" where
  "py_join sep [] = []"
| "py_join sep [x] = x"
| "py_join sep (x # y # ys) = x @ sep @ py_join sep (y # ys)"

text \<open>\<open>s.replace(old, new)\<close>: the occurrences of \<open>old\<close> are found from the left and do not
  overlap. Every call in the program has a non-empty \<open>old\<close>.\<close>

fun py_replace :: "string \<Rightarrow> string \<Rightarrow> string \<Rightarrow> string" where
  "py_replace old new [] = []"
| "py_replace old new (c # cs) =
     (if old \<noteq> [] \<and> startswith (c # cs) old
      then new @ py_replace old new (drop (length old) (c # cs))
      else c # py_replace old new cs)"

text \<open>\<open>s.count(sub)\<close> for a non-empty \<open>sub\<close>: occurrences from the left that do not
  overlap.\<close>

fun py_count :: "string \<Rightarrow> string \<Rightarrow> nat" where
  "py_count [] sub = 0"
| "py_count (c # cs) sub =
     (if sub \<noteq> [] \<and> startswith (c # cs) sub
      then Suc (py_count (drop (length sub) (c # cs)) sub)
      else py_count cs sub)"

text \<open>\<open>int(ds)\<close> on a string of decimal digits: the interpreter converts at most
  \<open>int_max_str_digits\<close> digits, 4300 unless it is configured otherwise, and raises
  ValueError on a longer string, leading zeros counted. \<open>str(n)\<close> of a natural number.\<close>

definition digit_val :: "char \<Rightarrow> nat" where
  "digit_val c = of_char c - 48"

definition int_max_str_digits :: nat where
  "int_max_str_digits = 4300"

definition py_int :: "string \<Rightarrow> py_error + nat" where
  "py_int ds =
     (if length ds > int_max_str_digits then Inl ValueError
      else Inr (foldl (\<lambda>a c. 10 * a + digit_val c) 0 ds))"

fun py_str :: "nat \<Rightarrow> string" where
  "py_str n =
     (if n < 10 then [''0123456789'' ! n]
      else py_str (n div 10) @ [''0123456789'' ! (n mod 10)])"

declare py_str.simps [simp del]

text \<open>The slice \<open>xs[start:end]\<close> with Python's reading of negative and too large
  indices.\<close>

definition slice_index :: "int \<Rightarrow> nat \<Rightarrow> nat" where
  "slice_index i n = (if i < 0 then nat (max 0 (i + int n)) else min (nat i) n)"

definition py_slice :: "'a list \<Rightarrow> int \<Rightarrow> int \<Rightarrow> 'a list" where
  "py_slice xs start stop =
     (let a = slice_index start (length xs); b = slice_index stop (length xs)
      in take (b - a) (drop a xs))"

text \<open>A file read in text mode, as its lines without their terminators. The text is the
  decoded content of the file, every line terminator already a newline; it is cut after
  every newline, and an empty rest after the last newline is no line.\<close>

definition file_lines :: "string \<Rightarrow> string list" where
  "file_lines txt =
     (let ps = py_split NL txt in if last ps = [] then butlast ps else ps)"


section \<open>The entry of a PO file (translate.py)\<close>

record POEntry =
  comments :: "string list"
  references :: "string list"
  flags :: "string list"
  msgid :: string
  msgid_plural :: string
  msgstr :: string
  msgstr_plural :: "string list"
  line_number :: nat
  is_header :: bool

definition new_POEntry :: POEntry where
  "new_POEntry =
     \<lparr>comments = [], references = [], flags = [], msgid = [], msgid_plural = [],
      msgstr = [], msgstr_plural = [], line_number = 0, is_header = False\<rparr>"

definition is_fuzzy :: "POEntry \<Rightarrow> bool" where
  "is_fuzzy e = (''fuzzy'' \<in> set (flags e))"

definition is_translated :: "POEntry \<Rightarrow> bool" where
  "is_translated e = (msgstr e \<noteq> [] \<and> \<not> is_header e)"

definition is_verified :: "POEntry \<Rightarrow> bool" where
  "is_verified e = (is_translated e \<and> \<not> is_fuzzy e)"

definition is_empty :: "POEntry \<Rightarrow> bool" where
  "is_empty e = (msgstr e = [] \<and> \<not> is_header e)"

text \<open>\<open>POEntry.add_fuzzy\<close>: \<open>last_ref_index\<close> is the loop that leaves in \<open>ref_idx\<close> the
  index of the last reference comment, or -1.\<close>

fun last_ref_index :: "int \<Rightarrow> int \<Rightarrow> string list \<Rightarrow> int" where
  "last_ref_index ref_idx i [] = ref_idx"
| "last_ref_index ref_idx i (c # cs) =
     last_ref_index (if startswith c ''#:'' then i else ref_idx) (i + 1) cs"

definition add_fuzzy :: "POEntry \<Rightarrow> POEntry" where
  "add_fuzzy e =
     (if ''fuzzy'' \<notin> set (flags e) then
        (let e1 = e\<lparr>flags := flags e @ [''fuzzy'']\<rparr>;
             has_flag_comment = list_ex (\<lambda>c. startswith c ''#,'') (comments e1)
         in if has_flag_comment
            then e1\<lparr>comments :=
                      map (\<lambda>c. if \<not> startswith c ''#,'' then c else c @ '', fuzzy'')
                        (comments e1)\<rparr>
            else (let ref_idx = last_ref_index (- 1) 0 (comments e1);
                      k = nat (ref_idx + 1)
                  in e1\<lparr>comments :=
                           take k (comments e1) @ [''#, fuzzy''] @ drop k (comments e1)\<rparr>))
      else e)"


section \<open>Decoding (translate.py)\<close>

definition unescape_po_string :: "string \<Rightarrow> string" where
  "unescape_po_string s =
     py_replace [BSL, BSL] [BSL]
       (py_replace [BSL, DQ] [DQ]
         (py_replace [BSL, CHR ''t''] [TAB]
           (py_replace [BSL, CHR ''n''] [NL] s)))"

definition escape_po_string :: "string \<Rightarrow> string" where
  "escape_po_string s =
     py_replace [TAB] [BSL, CHR ''t'']
       (py_replace [NL] [BSL, CHR ''n'']
         (py_replace [DQ] [BSL, DQ]
           (py_replace [BSL] [BSL, BSL] s)))"

text \<open>The field a continuation line is appended to; the program keeps it as the strings
  \<open>msgid\<close>, \<open>msgid_plural\<close>, \<open>msgstr\<close> and \<open>msgstr[idx]\<close>.\<close>

datatype field = FMsgid | FMsgidPlural | FMsgstr | FMsgstrPlural nat

record parse_state =
  st_entries :: "POEntry list"
  st_current_entry :: "POEntry option"
  st_current_field :: "field option"
  st_line_number :: nat

definition init_state :: parse_state where
  "init_state =
     \<lparr>st_entries = [], st_current_entry = None, st_current_field = None,
      st_line_number = 0\<rparr>"

text \<open>The entry boundary: the current entry is kept when it has an id or is the header.\<close>

definition flush_entry :: "POEntry option \<Rightarrow> POEntry list \<Rightarrow> POEntry list" where
  "flush_entry cur es =
     (case cur of
        None \<Rightarrow> es
      | Some e \<Rightarrow> if msgid e \<noteq> [] \<or> is_header e then es @ [e] else es)"

text \<open>\<open>value.startswith('"') and value.endswith('"')\<close>, and the slice \<open>value[1:-1]\<close>.\<close>

definition is_quoted :: "string \<Rightarrow> bool" where
  "is_quoted v = (startswith v [DQ] \<and> endswith v [DQ])"

definition unquote :: "string \<Rightarrow> string" where
  "unquote v = butlast (tl v)"

text \<open>\<open>re.match(r'msgstr\[(\d+)\] "(.*)"', line)\<close>: the two groups when the line
  matches. The second group is greedy, it ends before the last quote that no newline
  precedes.\<close>

definition match_msgstr_plural :: "string \<Rightarrow> (string \<times> string) option" where
  "match_msgstr_plural line =
     (if startswith line ''msgstr['' then
        (let r = drop 7 line; ds = takeWhile isdigit r; r2 = dropWhile isdigit r
         in if ds \<noteq> [] \<and> startswith r2 [CHR '']'', CHR '' '', DQ] then
              (let seg = takeWhile (\<lambda>c. c \<noteq> NL) (drop 3 r2)
               in if DQ \<in> set seg
                  then Some (ds, rev (tl (dropWhile (\<lambda>c. c \<noteq> DQ) (rev seg))))
                  else None)
            else None)
      else None)"

text \<open>A comment line: it is kept verbatim, and a \<open>#:\<close> or \<open>#,\<close> line is read too.\<close>

definition parse_comment :: "POEntry \<Rightarrow> string \<Rightarrow> POEntry" where
  "parse_comment e line =
     (let e1 = e\<lparr>comments := comments e @ [line]\<rparr>
      in if startswith line ''#:''
         then e1\<lparr>references := references e1 @ py_split_ws (py_strip (drop 2 line))\<rparr>
         else if startswith line ''#,''
         then e1\<lparr>flags := flags e1 @
                    map py_strip (py_split (CHR '','') (py_strip (drop 2 line)))\<rparr>
         else e1)"

text \<open>\<open>xs[idx] = v\<close> and \<open>xs[idx] += v\<close> raise IndexError out of range.\<close>

definition list_set :: "'a list \<Rightarrow> nat \<Rightarrow> 'a \<Rightarrow> py_error + 'a list" where
  "list_set xs i v = (if i < length xs then Inr (xs[i := v]) else Inl IndexError)"

definition list_append_at :: "string list \<Rightarrow> nat \<Rightarrow> string \<Rightarrow> py_error + string list" where
  "list_append_at xs i v =
     (if i < length xs then Inr (xs[i := xs ! i @ v]) else Inl IndexError)"

text \<open>A quoted continuation line is appended to the open field.\<close>

definition parse_continuation ::
  "field option \<Rightarrow> POEntry \<Rightarrow> string \<Rightarrow> py_error + POEntry" where
  "parse_continuation fld e v =
     (case fld of
        Some FMsgid \<Rightarrow> Inr (e\<lparr>msgid := msgid e @ v\<rparr>)
      | Some FMsgidPlural \<Rightarrow> Inr (e\<lparr>msgid_plural := msgid_plural e @ v\<rparr>)
      | Some FMsgstr \<Rightarrow> Inr (e\<lparr>msgstr := msgstr e @ v\<rparr>)
      | Some (FMsgstrPlural idx) \<Rightarrow>
          (case list_append_at (msgstr_plural e) idx v of
             Inl err \<Rightarrow> Inl err
           | Inr pl \<Rightarrow> Inr (e\<lparr>msgstr_plural := pl\<rparr>))
      | None \<Rightarrow> Inr e)"

text \<open>One turn of the loop of \<open>parse_po_file\<close>, on one line of the file.\<close>

definition parse_line :: "parse_state \<Rightarrow> string \<Rightarrow> py_error + parse_state" where
  "parse_line st0 raw =
     (let n = Suc (st_line_number st0);
          st = st0\<lparr>st_line_number := n\<rparr>;
          line = rstrip_nl raw
      in if py_strip line = [] then
           Inr (st\<lparr>st_entries := flush_entry (st_current_entry st) (st_entries st),
                   st_current_entry := None, st_current_field := None\<rparr>)
         else
           (let e = (case st_current_entry st of
                       None \<Rightarrow> new_POEntry\<lparr>line_number := n\<rparr>
                     | Some e0 \<Rightarrow> e0)
            in if startswith line ''#'' then
                 Inr (st\<lparr>st_current_entry := Some (parse_comment e line)\<rparr>)
               else if startswith line ''msgid '' then
                 (let v = py_strip (drop 6 line);
                      e1 = (if is_quoted v then
                              (let e2 = e\<lparr>msgid := unescape_po_string (unquote v)\<rparr>
                               in if msgid e2 = [] \<and> st_entries st = []
                                  then e2\<lparr>is_header := True\<rparr> else e2)
                            else e)
                  in Inr (st\<lparr>st_current_entry := Some e1,
                             st_current_field := Some FMsgid\<rparr>))
               else if startswith line ''msgid_plural '' then
                 (let v = py_strip (drop 13 line);
                      e1 = (if is_quoted v
                            then e\<lparr>msgid_plural := unescape_po_string (unquote v)\<rparr>
                            else e)
                  in Inr (st\<lparr>st_current_entry := Some e1,
                             st_current_field := Some FMsgidPlural\<rparr>))
               else if startswith line ''msgstr '' then
                 (let v = py_strip (drop 7 line);
                      e1 = (if is_quoted v
                            then e\<lparr>msgstr := unescape_po_string (unquote v)\<rparr>
                            else e)
                  in Inr (st\<lparr>st_current_entry := Some e1,
                             st_current_field := Some FMsgstr\<rparr>))
               else
                 (case match_msgstr_plural line of
                    Some (ds, g2) \<Rightarrow>
                      (case py_int ds of
                         Inl err \<Rightarrow> Inl err
                       | Inr idx \<Rightarrow>
                           (let v = unescape_po_string g2;
                                pl = msgstr_plural e @
                                       replicate (Suc idx - length (msgstr_plural e)) []
                            in case list_set pl idx v of
                                 Inl err \<Rightarrow> Inl err
                               | Inr pl1 \<Rightarrow>
                                   Inr (st\<lparr>st_current_entry :=
                                             Some (e\<lparr>msgstr_plural := pl1\<rparr>),
                                           st_current_field := Some (FMsgstrPlural idx)\<rparr>)))
                  | None \<Rightarrow>
                      if startswith line [DQ] \<and> endswith line [DQ] then
                        (case parse_continuation (st_current_field st) e
                                (unescape_po_string (unquote line)) of
                           Inl err \<Rightarrow> Inl err
                         | Inr e1 \<Rightarrow> Inr (st\<lparr>st_current_entry := Some e1\<rparr>))
                      else Inr (st\<lparr>st_current_entry := Some e\<rparr>))))"

fun parse_lines :: "parse_state \<Rightarrow> string list \<Rightarrow> py_error + parse_state" where
  "parse_lines st [] = Inr st"
| "parse_lines st (l # ls) =
     (case parse_line st l of
        Inl err \<Rightarrow> Inl err
      | Inr st1 \<Rightarrow> parse_lines st1 ls)"

text \<open>\<open>parse_po_file\<close> on the text of the file: the loop, then the last entry.\<close>

definition parse_po_file :: "string \<Rightarrow> py_error + POEntry list" where
  "parse_po_file txt =
     (case parse_lines init_state (file_lines txt) of
        Inl err \<Rightarrow> Inl err
      | Inr st \<Rightarrow> Inr (flush_entry (st_current_entry st) (st_entries st)))"


section \<open>Encoding (translate.py)\<close>

text \<open>A string between double quotes, as the \<open>f'"{...}"'\<close> strings of the writer.\<close>

definition in_quotes :: "string \<Rightarrow> string" where
  "in_quotes s = [DQ] @ s @ [DQ]"

definition format_msgstr_for_po :: "string \<Rightarrow> string list" where
  "format_msgstr_for_po s =
     (if s = [] then [''msgstr '' @ in_quotes []]
      else if NL \<in> set s then
        (let parts = py_split NL s
         in (''msgstr '' @ in_quotes []) #
            concat (map (\<lambda>(i, part).
                           if i < length parts - 1
                           then [in_quotes (escape_po_string part @ [BSL, CHR ''n''])]
                           else if part \<noteq> [] then [in_quotes (escape_po_string part)]
                           else [])
                        (enumerate 0 parts)))
      else [''msgstr '' @ in_quotes (escape_po_string s)])"

text \<open>A flags comment is split, changed and written again; a flags comment left with no
  flag is not written.\<close>

definition write_flag_line :: "bool \<Rightarrow> bool \<Rightarrow> string \<Rightarrow> string list" where
  "write_flag_line should_remove_fuzzy should_add_fuzzy comment =
     (let fl0 = map py_strip (py_split (CHR '','') (drop 2 comment));
          fl1 = (if should_remove_fuzzy then filter (\<lambda>fl. fl \<noteq> ''fuzzy'') fl0 else fl0);
          fl2 = (if should_add_fuzzy \<and> ''fuzzy'' \<notin> set fl1 then fl1 @ [''fuzzy''] else fl1)
      in if fl2 \<noteq> [] then [''#, '' @ py_join '', '' fl2] else [])"

text \<open>The loop over the comments of one entry: the lines written, and
  \<open>wrote_fuzzy_line\<close>.\<close>

fun write_comments :: "bool \<Rightarrow> bool \<Rightarrow> bool \<Rightarrow> string list \<Rightarrow> string list \<times> bool" where
  "write_comments should_remove_fuzzy should_add_fuzzy wrote [] = ([], wrote)"
| "write_comments should_remove_fuzzy should_add_fuzzy wrote (c # cs) =
     (if startswith c ''#,''
      then (let (ls, w) = write_comments should_remove_fuzzy should_add_fuzzy True cs
            in (write_flag_line should_remove_fuzzy should_add_fuzzy c @ ls, w))
      else (let (ls, w) = write_comments should_remove_fuzzy should_add_fuzzy wrote cs
            in (c # ls, w)))"

text \<open>The comment lines of one entry as they stand in the file, the synthesized flags
  line included.\<close>

definition write_entry_comments :: "bool \<Rightarrow> bool \<Rightarrow> string list \<Rightarrow> string list" where
  "write_entry_comments should_remove_fuzzy should_add_fuzzy cs =
     (let (ls, wrote_fuzzy_line) = write_comments should_remove_fuzzy should_add_fuzzy False cs
      in ls @ (if should_add_fuzzy \<and> \<not> wrote_fuzzy_line then [''#, fuzzy''] else []))"

definition write_msgid :: "string \<Rightarrow> string list" where
  "write_msgid m =
     (if NL \<in> set m \<or> length m > 70 then
        (''msgid '' @ in_quotes []) #
        concat (map (\<lambda>part.
                       if part \<noteq> last (py_split NL m)
                       then [in_quotes (escape_po_string part @ [BSL, CHR ''n''])]
                       else if part \<noteq> [] then [in_quotes (escape_po_string part)]
                       else [])
                    (py_split NL m))
      else [''msgid '' @ in_quotes (escape_po_string m)])"

definition write_msgstr_plural :: "string list \<Rightarrow> string list" where
  "write_msgstr_plural pl =
     map (\<lambda>(idx, plural).
            ''msgstr['' @ py_str idx @ ''] '' @ in_quotes (escape_po_string plural))
         (enumerate 0 pl)"

text \<open>The lines of one entry, without the blank line that separates it from the next.\<close>

definition write_entry :: "string set \<Rightarrow> string set \<Rightarrow> POEntry \<Rightarrow> string list" where
  "write_entry remove_fuzzy_for add_fuzzy_for e =
     (let should_remove_fuzzy = (msgid e \<in> remove_fuzzy_for);
          should_add_fuzzy = (msgid e \<in> add_fuzzy_for \<and> \<not> is_verified e)
      in write_entry_comments should_remove_fuzzy should_add_fuzzy (comments e) @
         write_msgid (msgid e) @
         (if msgid_plural e \<noteq> []
          then [''msgid_plural '' @ in_quotes (escape_po_string (msgid_plural e))]
          else []) @
         format_msgstr_for_po (msgstr e) @
         write_msgstr_plural (msgstr_plural e))"

fun write_entries :: "string set \<Rightarrow> string set \<Rightarrow> POEntry list \<Rightarrow> string list" where
  "write_entries remove_fuzzy_for add_fuzzy_for [] = []"
| "write_entries remove_fuzzy_for add_fuzzy_for [e] =
     write_entry remove_fuzzy_for add_fuzzy_for e"
| "write_entries remove_fuzzy_for add_fuzzy_for (e # e1 # es) =
     write_entry remove_fuzzy_for add_fuzzy_for e @ [[]] @
     write_entries remove_fuzzy_for add_fuzzy_for (e1 # es)"

text \<open>\<open>write_po_file\<close>: the text written to the file, every line with its newline.\<close>

definition write_po_file :: "POEntry list \<Rightarrow> string set \<Rightarrow> string set \<Rightarrow> string" where
  "write_po_file es remove_fuzzy_for add_fuzzy_for =
     concat (map (\<lambda>l. l @ [NL]) (write_entries remove_fuzzy_for add_fuzzy_for es))"


section \<open>Extraction (translate.py)\<close>

text \<open>One turn of the loop of \<open>filter_entries\<close>: whether the entry is appended to the
  result.\<close>

definition keeps :: "string \<Rightarrow> POEntry \<Rightarrow> bool" where
  "keeps mode e =
     (if is_header e \<or> msgid e = [] then False
      else if is_verified e then False
      else if mode = ''empty'' then is_empty e
      else if mode = ''fuzzy'' then is_fuzzy e
      else if mode = ''all'' then True
      else False)"

definition filter_entries :: "POEntry list \<Rightarrow> string \<Rightarrow> POEntry list" where
  "filter_entries es mode = filter (keeps mode) es"

text \<open>\<open>str.lower\<close> of one character.\<close>

definition lower_char :: "char \<Rightarrow> char" where
  "lower_char c =
     (let n = (of_char c :: nat)
      in if (65 \<le> n \<and> n \<le> 90) \<or> (192 \<le> n \<and> n \<le> 222 \<and> n \<noteq> 215)
         then char_of (n + 32) else c)"

definition py_lower :: "string \<Rightarrow> string" where
  "py_lower s = map lower_char s"

definition get_context_summary :: "POEntry \<Rightarrow> string" where
  "get_context_summary e =
     (case references e of
        [] \<Rightarrow> ''Unknown context''
      | ref # _ \<Rightarrow>
          (case py_split (CHR '':'') ref of
             [] \<Rightarrow> ''Unknown context''
           | filename # _ \<Rightarrow>
               if contains (py_lower filename) ''gesture''
               then ''Gesture setting ('' @ filename @ '')''
               else if contains (py_lower filename) ''dialog''
               then ''Dialog UI ('' @ filename @ '')''
               else if contains (py_lower filename) ''settings''
               then ''Settings menu ('' @ filename @ '')''
               else if contains filename ''main.lua''
               then ''Main menu ('' @ filename @ '')''
               else ''UI element ('' @ filename @ '')''))"

text \<open>The record of a batch, a dictionary of seven keys in the program.\<close>

record batch_record =
  r_id :: int
  r_msgid :: string
  r_context :: string
  r_references :: "string list"
  r_current_msgstr :: string
  r_is_fuzzy :: bool
  r_similar_strings :: "string list"

text \<open>The dictionary \<open>similar_map\<close> is the list of its items in their order, its keys
  distinct. \<open>msgid_to_group\<close> is the reverse map the two nested loops build: a later
  group overwrites an earlier one.\<close>

fun msgid_to_group :: "(string \<times> string list) list \<Rightarrow> (string \<rightharpoonup> string) \<Rightarrow> (string \<rightharpoonup> string)" where
  "msgid_to_group [] m = m"
| "msgid_to_group ((group_name, msgids) # rest) m =
     msgid_to_group rest (fold (\<lambda>k m1. m1(k \<mapsto> group_name)) msgids m)"

text \<open>The similar strings of one entry; \<open>similar_map[group]\<close> raises KeyError on a
  missing key.\<close>

definition similar_strings ::
  "(string \<times> string list) list \<Rightarrow> string \<Rightarrow> py_error + string list" where
  "similar_strings similar_map m =
     (case msgid_to_group similar_map Map.empty m of
        None \<Rightarrow> Inr []
      | Some g \<Rightarrow>
          if g \<noteq> [] then
            (case map_of similar_map g of
               None \<Rightarrow> Inl KeyError
             | Some ms \<Rightarrow> Inr (take 5 (filter (\<lambda>x. x \<noteq> m) ms)))
          else Inr [])"

text \<open>The body of the loop that builds the records, for one entry and its display id,
  and the loop; \<open>i\<close> is the index in the batch.\<close>

definition batch_record_for ::
  "(string \<times> string list) list \<Rightarrow> int \<Rightarrow> POEntry \<Rightarrow> py_error + batch_record" where
  "batch_record_for similar_map display_id e =
     (case similar_strings similar_map (msgid e) of
        Inl err \<Rightarrow> Inl err
      | Inr similar \<Rightarrow>
          Inr \<lparr>r_id = display_id, r_msgid = msgid e,
               r_context = get_context_summary e,
               r_references = take 3 (references e),
               r_current_msgstr = msgstr e, r_is_fuzzy = is_fuzzy e,
               r_similar_strings = similar\<rparr>)"

fun batch_records ::
  "(string \<times> string list) list \<Rightarrow> int \<Rightarrow> int \<Rightarrow> POEntry list \<Rightarrow> py_error + batch_record list" where
  "batch_records similar_map start i [] = Inr []"
| "batch_records similar_map start i (e # es) =
     (case batch_record_for similar_map (start + i + 1) e of
        Inl err \<Rightarrow> Inl err
      | Inr r \<Rightarrow>
          (case batch_records similar_map start (i + 1) es of
             Inl err \<Rightarrow> Inl err
           | Inr rs \<Rightarrow> Inr (r # rs)))"

definition extract_batch ::
  "POEntry list \<Rightarrow> int \<Rightarrow> int \<Rightarrow> (string \<times> string list) list \<Rightarrow> string
     \<Rightarrow> py_error + (batch_record list \<times> int)" where
  "extract_batch es batch_num batch_size similar_map mode =
     (let translatable = filter_entries es mode
      in if translatable \<noteq> [] \<and> batch_size = 0 then Inl ZeroDivisionError
         else
           (let total_batches =
                  (if translatable \<noteq> []
                   then (int (length translatable) + batch_size - 1) div batch_size else 0)
            in if batch_num < 1 \<or> batch_num > total_batches then Inr ([], total_batches)
               else
                 (let start = (batch_num - 1) * batch_size;
                      stop = min (start + batch_size) (int (length translatable));
                      batch_entries = py_slice translatable start stop
                  in case batch_records similar_map start 0 batch_entries of
                       Inl err \<Rightarrow> Inl err
                     | Inr rs \<Rightarrow> Inr (rs, total_batches))))"


section \<open>Import and apply (translate.py)\<close>

text \<open>A document read by \<open>json.load\<close>; an object is the list of its items, its keys
  distinct. A number stands for an integer or a float: the program only asks whether it
  is zero.\<close>

datatype json =
  JNull | JBool bool | JNum int | JStr string | JArr "json list" | JObj "(string \<times> json) list"

text \<open>\<open>not v\<close> is \<open>\<not> truthy v\<close>.\<close>

fun truthy :: "json \<Rightarrow> bool" where
  "truthy JNull = False"
| "truthy (JBool b) = b"
| "truthy (JNum n) = (n \<noteq> 0)"
| "truthy (JStr s) = (s \<noteq> [])"
| "truthy (JArr xs) = (xs \<noteq> [])"
| "truthy (JObj kvs) = (kvs \<noteq> [])"

text \<open>\<open>d.get(key, default)\<close>: only a dictionary has the method.\<close>

fun dict_get :: "json \<Rightarrow> string \<Rightarrow> json \<Rightarrow> py_error + json" where
  "dict_get (JObj kvs) k dflt = Inr (case map_of kvs k of None \<Rightarrow> dflt | Some v \<Rightarrow> v)"
| "dict_get _ k dflt = Inl AttributeError"

text \<open>What \<open>for item in items\<close> goes through.\<close>

fun iterate :: "json \<Rightarrow> py_error + json list" where
  "iterate (JArr xs) = Inr xs"
| "iterate (JObj kvs) = Inr (map (\<lambda>kv. JStr (fst kv)) kvs)"
| "iterate (JStr s) = Inr (map (\<lambda>c. JStr [c]) s)"
| "iterate _ = Inl TypeError"

text \<open>\<open>msgid_to_entry\<close> of \<open>import_translations\<close>: of two entries with one id the later
  one is kept.\<close>

definition msgid_to_entry :: "POEntry list \<Rightarrow> (string \<rightharpoonup> POEntry)" where
  "msgid_to_entry es = map_of (rev (map (\<lambda>e. (msgid e, e)) (filter (\<lambda>e. msgid e \<noteq> []) es)))"

text \<open>The two messages of the error list: \<open>Entry missing msgid: {item}\<close> with the item,
  and \<open>Unknown msgid: {msgid[:50]}...\<close> with the slice.\<close>

datatype import_message = Entry_missing_msgid json | Unknown_msgid string

record import_acc =
  acc_translations :: "string \<rightharpoonup> json"
  acc_errors :: "import_message list"
  acc_skipped_verified :: "string set"

text \<open>One turn of the loop of \<open>import_translations\<close>. An id that is not a string and not
  falsy raises TypeError: it is unhashable, or the slice \<open>msgid[:50]\<close> fails.\<close>

definition import_item ::
  "(string \<rightharpoonup> POEntry) \<Rightarrow> import_acc \<Rightarrow> json \<Rightarrow> py_error + import_acc" where
  "import_item lookup acc item =
     (case dict_get item ''msgid'' JNull of
        Inl err \<Rightarrow> Inl err
      | Inr mid \<Rightarrow>
          (case dict_get item ''msgstr'' JNull of
             Inl err \<Rightarrow> Inl err
           | Inr mstr \<Rightarrow>
               if \<not> truthy mid
               then Inr (acc\<lparr>acc_errors := acc_errors acc @ [Entry_missing_msgid item]\<rparr>)
               else
                 (case mid of
                    JStr k \<Rightarrow>
                      (case lookup k of
                         None \<Rightarrow> Inr (acc\<lparr>acc_errors := acc_errors acc @ [Unknown_msgid (take 50 k)]\<rparr>)
                       | Some entry \<Rightarrow>
                           if is_verified entry
                           then Inr (acc\<lparr>acc_skipped_verified := insert k (acc_skipped_verified acc)\<rparr>)
                           else if mstr \<noteq> JNull
                           then Inr (acc\<lparr>acc_translations := (acc_translations acc)(k \<mapsto> mstr)\<rparr>)
                           else Inr acc)
                  | _ \<Rightarrow> Inl TypeError)))"

fun import_items ::
  "(string \<rightharpoonup> POEntry) \<Rightarrow> import_acc \<Rightarrow> json list \<Rightarrow> py_error + import_acc" where
  "import_items lookup acc [] = Inr acc"
| "import_items lookup acc (item # rest) =
     (case import_item lookup acc item of
        Inl err \<Rightarrow> Inl err
      | Inr acc1 \<Rightarrow> import_items lookup acc1 rest)"

text \<open>The items the loop goes through, \<open>data.get("translations", data.get("entries", []))\<close>:
  the default is evaluated first.\<close>

definition items_of :: "json \<Rightarrow> py_error + json list" where
  "items_of data =
     (case dict_get data ''entries'' (JArr []) of
        Inl err \<Rightarrow> Inl err
      | Inr dflt \<Rightarrow>
          (case dict_get data ''translations'' dflt of
             Inl err \<Rightarrow> Inl err
           | Inr items \<Rightarrow> iterate items))"

text \<open>\<open>import_translations\<close> on the document read from the input file.\<close>

definition import_translations :: "json \<Rightarrow> POEntry list \<Rightarrow> py_error + import_acc" where
  "import_translations data es =
     (case items_of data of
        Inl err \<Rightarrow> Inl err
      | Inr xs \<Rightarrow>
          import_items (msgid_to_entry es)
            \<lparr>acc_translations = Map.empty, acc_errors = [], acc_skipped_verified = {}\<rparr> xs)"

text \<open>\<open>apply_translations\<close>: the entries after the loop, and the count it returns.\<close>

fun apply_translations :: "POEntry list \<Rightarrow> (string \<rightharpoonup> string) \<Rightarrow> POEntry list \<times> nat" where
  "apply_translations [] tr = ([], 0)"
| "apply_translations (e # es) tr =
     (let (es1, applied) = apply_translations es tr
      in case tr (msgid e) of
           None \<Rightarrow> (e # es1, applied)
         | Some t \<Rightarrow>
             if is_verified e then (e # es1, applied)
             else (e\<lparr>msgstr := t\<rparr> # es1, Suc applied))"

text \<open>The apply command of \<open>main\<close> from the merged translations on: the entries after
  \<open>apply_translations\<close> and the text written to the file.\<close>

definition main_apply :: "POEntry list \<Rightarrow> (string \<rightharpoonup> string) \<Rightarrow> bool \<Rightarrow> POEntry list \<times> string" where
  "main_apply es all_translations verified =
     (let (es1, applied) = apply_translations es all_translations;
          remove_fuzzy = (if verified then dom all_translations else {});
          add_fuzzy = (if verified then {} else dom all_translations)
      in (es1, write_po_file es1 remove_fuzzy add_fuzzy))"


section \<open>The validator (validate\_translations.py)\<close>

text \<open>The validator has an entry class and a parser of its own.\<close>

record VEntry =
  v_comments :: "string list"
  v_msgid :: string
  v_msgid_plural :: string
  v_msgstr :: string
  v_msgstr_plural :: "string list"
  v_fuzzy :: bool
  v_line_number :: nat
  v_references :: "string list"

definition new_VEntry :: VEntry where
  "new_VEntry =
     \<lparr>v_comments = [], v_msgid = [], v_msgid_plural = [], v_msgstr = [],
      v_msgstr_plural = [], v_fuzzy = False, v_line_number = 0, v_references = []\<rparr>"




definition v_parse_comment :: "VEntry \<Rightarrow> string \<Rightarrow> VEntry" where
  "v_parse_comment e line =
     (let e1 = e\<lparr>v_comments := v_comments e @ [line]\<rparr>;
          e2 = (if startswith line ''#, '' \<and> contains line ''fuzzy''
                then e1\<lparr>v_fuzzy := True\<rparr> else e1)
      in if startswith line ''#: ''
         then e2\<lparr>v_references := v_references e2 @ [drop 3 line]\<rparr>
         else e2)"





subsection \<open>The rules\<close>

abbreviation SQ :: char where "SQ \<equiv> CHR 0x27"

record ValidationResult =
  res_errors :: "string list"
  res_warnings :: "string list"
  res_info :: "string list"

definition new_ValidationResult :: ValidationResult where
  "new_ValidationResult = \<lparr>res_errors = [], res_warnings = [], res_info = []\<rparr>"

text \<open>The line of a message is optional, and the line 0 is left out like no line.\<close>

definition line_prefix :: "nat option \<Rightarrow> string" where
  "line_prefix line =
     (case line of
        None \<Rightarrow> []
      | Some n \<Rightarrow> if n \<noteq> 0 then ''Line '' @ py_str n @ '': '' else [])"

definition issue_text :: "string \<Rightarrow> string \<Rightarrow> nat option \<Rightarrow> string" where
  "issue_text check_name message line =
     ''['' @ check_name @ ''] '' @ line_prefix line @ message"

definition add_error :: "ValidationResult \<Rightarrow> string \<Rightarrow> string \<Rightarrow> nat option \<Rightarrow> ValidationResult" where
  "add_error res check_name message line =
     res\<lparr>res_errors := res_errors res @ [issue_text check_name message line]\<rparr>"

definition add_warning :: "ValidationResult \<Rightarrow> string \<Rightarrow> string \<Rightarrow> nat option \<Rightarrow> ValidationResult" where
  "add_warning res check_name message line =
     res\<lparr>res_warnings := res_warnings res @ [issue_text check_name message line]\<rparr>"

definition BRAND_NAMES :: "string list" where
  "BRAND_NAMES =
     [''KOAssistant'', ''KOReader'', ''Claude'', ''GPT'', ''Gemini'', ''OpenAI'',
      ''Anthropic'', ''DeepSeek'', ''Ollama'', ''Groq'', ''Mistral'', ''xAI'',
      ''OpenRouter'', ''Qwen'', ''Kimi'', ''Together'', ''Fireworks'', ''SambaNova'',
      ''Cohere'', ''Doubao'']"

definition TECHNICAL_TERMS :: "string list" where
  "TECHNICAL_TERMS = [''API'', ''token'', ''tokens'', ''cache'', ''caching'', ''streaming'']"

text \<open>The table of known mistranslations has one key. Two more of its variants are
  written in Chinese and Arabic script: no string of the model contains them, and they
  are left out.\<close>

definition mistranslations :: "string \<Rightarrow> string list" where
  "mistranslations brand =
     (if brand = ''KOAssistant'' then [''KOAsistente'', ''KOAssistent'', ''KOAssistente'']
      else [])"

text \<open>The placeholder \<open>%i\<close> of rule 1.\<close>

definition placeholder :: "nat \<Rightarrow> string" where
  "placeholder i = CHR ''%'' # py_str i"

definition mismatch_message :: "nat \<Rightarrow> nat \<Rightarrow> nat \<Rightarrow> string" where
  "mismatch_message i msgid_count msgstr_count =
     placeholder i @ '' count mismatch: msgid has '' @ py_str msgid_count @
     '', msgstr has '' @ py_str msgstr_count"

text \<open>Rule 1, the loop over \<open>range(1, 10)\<close>.\<close>

fun check_placeholders :: "string \<Rightarrow> string \<Rightarrow> nat \<Rightarrow> nat list \<Rightarrow> ValidationResult \<Rightarrow> ValidationResult" where
  "check_placeholders src tgt line [] res = res"
| "check_placeholders src tgt line (i # rest) res =
     (let msgid_count = py_count src (placeholder i);
          msgstr_count = py_count tgt (placeholder i)
      in check_placeholders src tgt line rest
           (if msgid_count \<noteq> msgstr_count
            then add_error res ''PLACEHOLDER_MISMATCH''
                   (mismatch_message i msgid_count msgstr_count) (Some line)
            else res))"

text \<open>\<open>re.search(r'%[1-9]', s)\<close> finds a match, and \<open>re.findall(r'%[sdf]', s)\<close>.\<close>

fun has_numbered :: "string \<Rightarrow> bool" where
  "has_numbered (a # b # r) =
     ((a = CHR ''%'' \<and> b \<in> set ''123456789'') \<or> has_numbered (b # r))"
| "has_numbered _ = False"

fun findall_printf :: "string \<Rightarrow> string list" where
  "findall_printf (a # b # r) =
     (if a = CHR ''%'' \<and> b \<in> set ''sdf'' then [a, b] # findall_printf r
      else findall_printf (b # r))"
| "findall_printf _ = []"

text \<open>A list of strings as an f-string prints it; the strings here have no quote and
  no escape.\<close>

definition repr_list :: "string list \<Rightarrow> string" where
  "repr_list xs = ''['' @ py_join '', '' (map (\<lambda>x. [SQ] @ x @ [SQ]) xs) @ '']''"

text \<open>Rule 3 for one brand name.\<close>

definition check_brand :: "string \<Rightarrow> string \<Rightarrow> nat \<Rightarrow> string \<Rightarrow> ValidationResult \<Rightarrow> ValidationResult" where
  "check_brand src tgt line brand res =
     (if contains src brand \<and> \<not> contains tgt brand then
        (case filter (\<lambda>alt. contains tgt alt) (mistranslations brand) of
           found # _ \<Rightarrow>
             add_error res ''BRAND_NAME_TRANSLATED''
               ([SQ] @ brand @ [SQ] @ '' translated as '' @ [SQ] @ found @ [SQ] @
                '' - should be preserved'') (Some line)
         | [] \<Rightarrow>
             add_warning res ''BRAND_NAME_MISSING''
               ([SQ] @ brand @ [SQ] @ '' not found in translation (msgid: '' @
                take 40 src @ ''...)'') (Some line))
      else res)"

text \<open>What \<open>\w\<close> matches, and \<open>re.search(rf'\b{term}\b', s, re.IGNORECASE)\<close> for a term of
  letters: the term stands in \<open>s\<close>, in any case, with no word character before it or
  after it. \<open>prev_word\<close> says that the character before is a word character.\<close>

definition is_word_char :: "char \<Rightarrow> bool" where
  "is_word_char c =
     (let n = (of_char c :: nat)
      in (48 \<le> n \<and> n \<le> 57) \<or> (65 \<le> n \<and> n \<le> 90) \<or> n = 95 \<or> (97 \<le> n \<and> n \<le> 122) \<or>
         n = 170 \<or> n = 178 \<or> n = 179 \<or> n = 181 \<or> n = 185 \<or> n = 186 \<or>
         (188 \<le> n \<and> n \<le> 190) \<or> (192 \<le> n \<and> n \<le> 214) \<or> (216 \<le> n \<and> n \<le> 246) \<or>
         248 \<le> n)"

fun word_search_from :: "bool \<Rightarrow> string \<Rightarrow> string \<Rightarrow> bool" where
  "word_search_from prev_word term [] = False"
| "word_search_from prev_word term (c # cs) =
     ((\<not> prev_word \<and>
       py_lower (take (length term) (c # cs)) = py_lower term \<and>
       (case drop (length term) (c # cs) of [] \<Rightarrow> True | d # _ \<Rightarrow> \<not> is_word_char d)) \<or>
      word_search_from (is_word_char c) term cs)"

definition word_search :: "string \<Rightarrow> string \<Rightarrow> bool" where
  "word_search term s = word_search_from False term s"

definition check_term :: "string \<Rightarrow> string \<Rightarrow> nat \<Rightarrow> string \<Rightarrow> ValidationResult \<Rightarrow> ValidationResult" where
  "check_term src tgt line term res =
     (if word_search term src \<and> \<not> word_search term tgt
      then add_warning res ''TECHNICAL_TERM_TRANSLATED''
             ([SQ] @ term @ [SQ] @ '' appears translated (original: '' @
              take 40 src @ ''...)'') (Some line)
      else res)"

text \<open>\<open>validate_entry\<close>: the result after the entry was checked. The language code is
  not read.\<close>

definition validate_entry :: "VEntry \<Rightarrow> ValidationResult \<Rightarrow> string \<Rightarrow> ValidationResult" where
  "validate_entry entry res lang_code =
     (let src = v_msgid entry; tgt = v_msgstr entry; line = v_line_number entry
      in if src = [] then res
         else if tgt = [] then
           add_warning res ''EMPTY_TRANSLATION''
             (''Untranslated: '' @ take 50 src @ ''...'') (Some line)
         else
           (let r1 = check_placeholders src tgt line [1..<10] res;
                r2 = (if has_numbered src then
                        (let wrong_placeholders = findall_printf tgt
                         in if wrong_placeholders \<noteq> [] then
                              add_error r1 ''WRONG_PLACEHOLDER_FORMAT''
                                (''msgstr uses '' @ repr_list wrong_placeholders @
                                 '' but msgid uses %1 format'') (Some line)
                            else r1)
                      else r1);
                r3 = fold (check_brand src tgt line) BRAND_NAMES r2;
                r4 = fold (check_term src tgt line) TECHNICAL_TERMS r3;
                msgid_newlines = py_count src [NL];
                msgstr_newlines = py_count tgt [NL]
            in if msgid_newlines \<noteq> msgstr_newlines then
                 add_warning r4 ''NEWLINE_MISMATCH''
                   (''Newline count mismatch: msgid has '' @ py_str msgid_newlines @
                    '', msgstr has '' @ py_str msgstr_newlines) (Some line)
               else r4))"


section \<open>Notions of the specification\<close>

text \<open>Decoding the encoding, with no change of the fuzzy flags, of a decoded text.\<close>

definition round_trip :: "string \<Rightarrow> py_error + POEntry list" where
  "round_trip txt =
     (case parse_po_file txt of
        Inl err \<Rightarrow> Inl err
      | Inr es \<Rightarrow> parse_po_file (write_po_file es {} {}))"


text \<open>The open field of a parser state is in range: a continuation line of a plural form
  finds its index in the list of the current entry.\<close>

definition open_field_ok :: "field option \<Rightarrow> string list option \<Rightarrow> bool" where
  "open_field_ok fld pl =
     (case fld of
        Some (FMsgstrPlural idx) \<Rightarrow> (case pl of None \<Rightarrow> False | Some xs \<Rightarrow> idx < length xs)
      | _ \<Rightarrow> True)"





text \<open>Every entry of a parser state, closed or open, has at most \<open>b\<close> plural forms.\<close>

definition plural_bounded :: "nat \<Rightarrow> POEntry list \<Rightarrow> POEntry option \<Rightarrow> bool" where
  "plural_bounded b es cur =
     list_all (\<lambda>e. length (msgstr_plural e) \<le> b)
       (es @ (case cur of None \<Rightarrow> [] | Some e \<Rightarrow> [e]))"

definition v_plural_bounded :: "nat \<Rightarrow> VEntry list \<Rightarrow> VEntry option \<Rightarrow> bool" where
  "v_plural_bounded b es cur =
     list_all (\<lambda>e. length (v_msgstr_plural e) \<le> b)
       (es @ (case cur of None \<Rightarrow> [] | Some e \<Rightarrow> [e]))"

text \<open>The record the loop builds for an entry and a display id, when the lookup of its
  group does not fail.\<close>

definition record_of :: "(string \<times> string list) list \<Rightarrow> int \<Rightarrow> POEntry \<Rightarrow> batch_record" where
  "record_of sm d e =
     \<lparr>r_id = d, r_msgid = msgid e, r_context = get_context_summary e,
      r_references = take 3 (references e), r_current_msgstr = msgstr e,
      r_is_fuzzy = is_fuzzy e,
      r_similar_strings = (case similar_strings sm (msgid e) of Inr sim \<Rightarrow> sim | Inl _ \<Rightarrow> [])\<rparr>"

text \<open>The errors that validating one entry adds to the result.\<close>

definition reported_errors :: "VEntry \<Rightarrow> ValidationResult \<Rightarrow> string \<Rightarrow> string list" where
  "reported_errors entry res lang_code =
     drop (length (res_errors res)) (res_errors (validate_entry entry res lang_code))"

text \<open>The errors of rule 3 for a list of brand names, and the error of rule 2, as the lists
  that \<open>validate_entry\<close> appends.\<close>

definition brand_errors :: "string \<Rightarrow> string \<Rightarrow> nat \<Rightarrow> string list \<Rightarrow> string list" where
  "brand_errors src tgt line bs =
     concat (map (\<lambda>brand.
        if contains src brand \<and> \<not> contains tgt brand then
          (case filter (\<lambda>alt. contains tgt alt) (mistranslations brand) of
             found # _ \<Rightarrow>
               [issue_text ''BRAND_NAME_TRANSLATED''
                  ([SQ] @ brand @ [SQ] @ '' translated as '' @ [SQ] @ found @ [SQ] @
                   '' - should be preserved'') (Some line)]
           | [] \<Rightarrow> [])
        else []) bs)"

definition format_errors :: "string \<Rightarrow> string \<Rightarrow> nat \<Rightarrow> string list" where
  "format_errors src tgt line =
     (if has_numbered src \<and> findall_printf tgt \<noteq> []
      then [issue_text ''WRONG_PLACEHOLDER_FORMAT''
              (''msgstr uses '' @ repr_list (findall_printf tgt) @ '' but msgid uses %1 format'')
              (Some line)]
      else [])"

text \<open>A flags comment and a reference comment, by their first two characters.\<close>

definition is_flag_line :: "string \<Rightarrow> bool" where
  "is_flag_line c = startswith c ''#,''"

definition is_reference_line :: "string \<Rightarrow> bool" where
  "is_reference_line c = startswith c ''#:''"


section \<open>Escaping and the round trip\<close>

text \<open>
  Claim C4 (unescape inverts escape on every string) does not hold of the program. The
  string of the two characters backslash and \<open>n\<close> is escaped to backslash, backslash,
  \<open>n\<close>; unescaping replaces the second backslash and the \<open>n\<close> by a newline first, so that
  the result is a backslash and a newline.
\<close>

theorem unescape_escape_backslash_n:
  "escape_po_string [BSL, CHR ''n''] = [BSL, BSL, CHR ''n''] \<and>
   unescape_po_string (escape_po_string [BSL, CHR ''n'']) = [BSL, NL] \<and>
   unescape_po_string (escape_po_string [BSL, CHR ''n'']) \<noteq> [BSL, CHR ''n'']"
  by (simp add: unescape_po_string_def escape_po_string_def startswith_def)

text \<open>
  Claim C3 (decoding the encoding of a decoded text gives the same entries) does not
  hold of the program. The id \<open>Yes\nNo\nYes\<close> is decoded to three lines; the writer
  takes every part equal to the last part for the last one, and writes the first
  \<open>Yes\<close> with no newline, so that the id decoded again is \<open>YesNo\nYes\<close>.
\<close>

theorem round_trip_changes_msgid:
  "map_sum id (map msgid)
     (parse_po_file
        (''msgid '' @ in_quotes (''Yes'' @ [BSL, CHR ''n''] @ ''No'' @ [BSL, CHR ''n''] @ ''Yes'') @
         [NL] @ ''msgstr '' @ in_quotes ''x'' @ [NL]))
     = Inr [''Yes'' @ [NL] @ ''No'' @ [NL] @ ''Yes''] \<and>
   map_sum id (map msgid)
     (round_trip
        (''msgid '' @ in_quotes (''Yes'' @ [BSL, CHR ''n''] @ ''No'' @ [BSL, CHR ''n''] @ ''Yes'') @
         [NL] @ ''msgstr '' @ in_quotes ''x'' @ [NL]))
     = Inr [''YesNo'' @ [NL] @ ''Yes'']"
  by code_simp


section \<open>The fuzzy flag after apply\<close>

text \<open>
  Claim C2 (on the path that is not human-verified every applied id has the fuzzy flag
  in the written file) does not hold of the program. An entry with no translation and
  no flag receives its translation from \<open>apply_translations\<close>; \<open>write_po_file\<close> then
  finds it verified and adds no flag. The file is written without a flags line, and
  decoding it gives a verified entry.
\<close>

theorem unreviewed_apply_writes_no_fuzzy:
  "main_apply [new_POEntry\<lparr>msgid := ''Cancel''\<rparr>] [''Cancel'' \<mapsto> ''Annuler''] False =
     ([new_POEntry\<lparr>msgid := ''Cancel'', msgstr := ''Annuler''\<rparr>],
      ''msgid '' @ in_quotes ''Cancel'' @ [NL] @ ''msgstr '' @ in_quotes ''Annuler'' @ [NL]) \<and>
   map_sum id (map (\<lambda>e. (msgid e, msgstr e, is_fuzzy e, is_verified e)))
     (parse_po_file
        (''msgid '' @ in_quotes ''Cancel'' @ [NL] @ ''msgstr '' @ in_quotes ''Annuler'' @ [NL]))
     = Inr [(''Cancel'', ''Annuler'', False, True)]"
proof
  show "main_apply [new_POEntry\<lparr>msgid := ''Cancel''\<rparr>] [''Cancel'' \<mapsto> ''Annuler''] False =
     ([new_POEntry\<lparr>msgid := ''Cancel'', msgstr := ''Annuler''\<rparr>],
      ''msgid '' @ in_quotes ''Cancel'' @ [NL] @ ''msgstr '' @ in_quotes ''Annuler'' @ [NL])"
    by (simp add: main_apply_def is_verified_def is_translated_def is_fuzzy_def
        new_POEntry_def write_po_file_def write_entry_def write_entry_comments_def
        write_msgid_def format_msgstr_for_po_def write_msgstr_plural_def
        escape_po_string_def startswith_def in_quotes_def)
  show "map_sum id (map (\<lambda>e. (msgid e, msgstr e, is_fuzzy e, is_verified e)))
     (parse_po_file
        (''msgid '' @ in_quotes ''Cancel'' @ [NL] @ ''msgstr '' @ in_quotes ''Annuler'' @ [NL]))
     = Inr [(''Cancel'', ''Annuler'', False, True)]"
    by code_simp
qed


section \<open>When decoding returns\<close>

lemma msgstr_plural_parse_comment [simp]: "msgstr_plural (parse_comment e l) = msgstr_plural e"
  by (simp add: parse_comment_def Let_def)



lemma open_field_ok_simps [simp]:
  "open_field_ok None pl"
  "open_field_ok (Some FMsgid) pl"
  "open_field_ok (Some FMsgidPlural) pl"
  "open_field_ok (Some FMsgstr) pl"
  "open_field_ok (Some (FMsgstrPlural i)) (Some xs) = (i < length xs)"
  "open_field_ok (Some (FMsgstrPlural i)) None = False"
  by (simp_all add: open_field_ok_def)















lemma v_msgstr_plural_parse_comment [simp]: "v_msgstr_plural (v_parse_comment e l) = v_msgstr_plural e"
  by (simp add: v_parse_comment_def Let_def)

















lemma plural_bounded_simps [simp]:
  "plural_bounded b es None = list_all (\<lambda>e. length (msgstr_plural e) \<le> b) es"
  "plural_bounded b es (Some e) =
     (list_all (\<lambda>e. length (msgstr_plural e) \<le> b) es \<and> length (msgstr_plural e) \<le> b)"
  by (simp_all add: plural_bounded_def)








lemma v_plural_bounded_simps [simp]:
  "v_plural_bounded b es None = list_all (\<lambda>e. length (v_msgstr_plural e) \<le> b) es"
  "v_plural_bounded b es (Some e) =
     (list_all (\<lambda>e. length (v_msgstr_plural e) \<le> b) es \<and> length (v_msgstr_plural e) \<le> b)"
  by (simp_all add: v_plural_bounded_def)











section \<open>Batches\<close>

lemma fold_upd_cases:
  "fold (\<lambda>k m1. m1(k \<mapsto> g)) ks m x = Some v \<Longrightarrow> m x = Some v \<or> v = g"
proof (induction ks arbitrary: m)
  case Nil
  then show ?case by simp
next
  case (Cons a ks)
  from Cons.prems have "fold (\<lambda>k m1. m1(k \<mapsto> g)) ks (m(a \<mapsto> g)) x = Some v"
    by (simp del: fun_upd_apply)
  from Cons.IH[OF this] show ?case by (auto split: if_splits)
qed

lemma msgid_to_group_cases:
  "msgid_to_group sm m x = Some g \<Longrightarrow> m x = Some g \<or> g \<in> fst ` set sm"
proof (induction sm arbitrary: m)
  case Nil
  then show ?case by simp
next
  case (Cons p sm)
  obtain gn ks where p: "p = (gn, ks)" by (cases p)
  from Cons.prems p have "msgid_to_group sm (fold (\<lambda>k m1. m1(k \<mapsto> gn)) ks m) x = Some g" by simp
  from Cons.IH[OF this] show ?case
    using p by (auto dest: fold_upd_cases)
qed

lemma similar_strings_Inr: "\<exists>sim. similar_strings sm x = Inr sim"
proof (cases "msgid_to_group sm Map.empty x")
  case None
  then show ?thesis by (simp add: similar_strings_def)
next
  case (Some g)
  from msgid_to_group_cases[OF Some] have "g \<in> fst ` set sm" by simp
  then have "map_of sm g \<noteq> None" by (simp add: map_of_eq_None_iff)
  with Some show ?thesis by (auto simp: similar_strings_def)
qed

lemma ceil_div:
  fixes n bs :: nat
  assumes "1 \<le> bs"
  shows "\<lceil>real n / real bs\<rceil> = int ((n + bs - 1) div bs)"
proof -
  define q where "q = (n + bs - 1) div bs"
  have bs: "0 < bs" using assms by simp
  have lo: "q * bs \<le> n + bs - 1"
    unfolding q_def by (rule div_times_less_eq_dividend)
  have "n + bs - 1 < (q + 1) * bs"
    unfolding q_def using bs dividend_less_div_times[of bs "n + bs - 1"] by (simp add: algebra_simps)
  then have hi: "n \<le> q * bs" using bs by simp
  have up: "real n / real bs \<le> real q"
    using hi bs by (simp add: pos_divide_le_eq flip: of_nat_mult)
  have "q * bs < n + bs" using lo bs by simp
  then have "real (q * bs) < real (n + bs)" by (simp only: of_nat_less_iff)
  then have "real q * real bs - real bs < real n" by simp
  then have "(real q - 1) * real bs < real n" by (simp add: algebra_simps)
  then have dn: "real q - 1 < real n / real bs"
    using bs by (simp add: pos_less_divide_eq)
  have "\<lceil>real n / real bs\<rceil> = int q"
    by (rule ceiling_unique) (use up dn in simp_all)
  then show ?thesis by (simp add: q_def)
qed


lemma batch_record_for_Inr: "batch_record_for sm d e = Inr (record_of sm d e)"
  using similar_strings_Inr[of sm "msgid e"] by (auto simp: batch_record_for_def record_of_def)

lemma batch_records_eq:
  "batch_records sm start i xs =
     Inr (map (\<lambda>j. record_of sm (start + i + int j + 1) (xs ! j)) [0..<length xs])"
proof (induction xs arbitrary: i)
  case Nil
  then show ?case by simp
next
  case (Cons x xs)
  have "[0..<length (x # xs)] = 0 # map Suc [0..<length xs]"
    by (simp add: upt_conv_Cons map_Suc_upt del: upt_Suc)
  then show ?case
    by (simp add: Cons.IH batch_record_for_Inr algebra_simps del: upt_Suc)
qed

lemma chunk_records:
  fixes f :: "POEntry list"
  assumes "k * bs \<le> length f"
  shows "map (\<lambda>j. record_of sm (int (k * bs) + 0 + int j + 1) (take bs (drop (k * bs) f) ! j))
           [0..<length (take bs (drop (k * bs) f))] =
         map (\<lambda>p. record_of sm (int p + 1) (f ! p)) [k * bs..<min ((k + 1) * bs) (length f)]"
proof -
  let ?L = "length (take bs (drop (k * bs) f))"
  have ar: "\<And>a n b :: nat. a \<le> n \<Longrightarrow> min b (n - a) + a = min (a + b) n" by arith
  have "(k + 1) * bs = k * bs + bs" by simp
  moreover have "?L = min bs (length f - k * bs)" by simp
  ultimately have L: "?L + k * bs = min ((k + 1) * bs) (length f)"
    using ar[OF assms, of bs] by simp
  have "map (\<lambda>p. record_of sm (int p + 1) (f ! p)) [k * bs..<?L + k * bs] =
        map (\<lambda>p. record_of sm (int p + 1) (f ! p)) (map (\<lambda>j. j + k * bs) [0..<?L])"
    by (simp only: map_add_upt)
  also have "\<dots> = map (\<lambda>j. record_of sm (int (k * bs) + 0 + int j + 1) (take bs (drop (k * bs) f) ! j)) [0..<?L]"
    using assms by (auto simp: add.commute)
  finally show ?thesis using L by simp
qed

lemma concat_chunks:
  fixes h :: "nat \<Rightarrow> 'a"
  assumes "0 < bs"
  shows "concat (map (\<lambda>k. map h [k * bs..<min ((k + 1) * bs) n]) [0..<t]) = map h [0..<min (t * bs) n]"
proof (induction t)
  case 0
  then show ?case by simp
next
  case (Suc t)
  have "[0..<min (t * bs) n] @ [t * bs..<min ((t + 1) * bs) n] = [0..<min ((t + 1) * bs) n]"
  proof (cases "t * bs \<le> n")
    case True
    then have "min (t * bs) n = t * bs" by simp
    moreover have "t * bs \<le> min ((t + 1) * bs) n" using True by simp
    ultimately show ?thesis
      using upt_add_eq_append[of 0 "t * bs" "min ((t + 1) * bs) n - t * bs"] by simp
  next
    case False
    then show ?thesis by (simp add: min_def)
  qed
  then have "map h [0..<min (t * bs) n] @ map h [t * bs..<min ((t + 1) * bs) n] = map h [0..<min ((t + 1) * bs) n]"
    by (metis map_append)
  with Suc.IH show ?case by simp
qed

lemma slice_index_nat: "slice_index (int a) n = min a n"
  by (simp add: slice_index_def)

lemma slice_chunk:
  assumes "a \<le> length f"
  shows "py_slice f (int a) (min (int a + int bs) (int (length f))) = take bs (drop a f)"
proof -
  have m: "min (int a + int bs) (int (length f)) = int (min (a + bs) (length f))"
    by (simp add: min_def)
  have "take (min (a + bs) (length f) - a) (drop a f) = take bs (drop a f)"
    using assms by (simp add: min_def)
  then show ?thesis
    using assms unfolding py_slice_def Let_def m slice_index_nat by (simp add: min_def)
qed


lemma total_batches_nat:
  fixes f :: "'a list"
  assumes "1 \<le> bs"
  shows "(if f \<noteq> [] then (int (length f) + int bs - 1) div int bs else 0) =
         int ((length f + bs - 1) div bs)"
proof (cases "f = []")
  case True
  have "(bs - 1) div bs = 0" using assms by simp
  with True show ?thesis by simp
next
  case False
  have "int (length f) + int bs - 1 = int (length f + bs - 1)"
    using assms by linarith
  then have "(int (length f) + int bs - 1) div int bs = int (length f + bs - 1) div int bs"
    by (simp only:)
  also have "\<dots> = int ((length f + bs - 1) div bs)"
    by (rule zdiv_int[symmetric])
  finally show ?thesis using False by (simp only: if_True not_False_eq_True)
qed

lemma chunk_start_le:
  fixes n bs k :: nat
  assumes "1 \<le> bs" "k < (n + bs - 1) div bs"
  shows "k * bs \<le> n"
proof -
  have "k + 1 \<le> (n + bs - 1) div bs" using assms(2) by simp
  then have "(k + 1) * bs \<le> ((n + bs - 1) div bs) * bs"
    by (rule mult_le_mono1)
  also have "\<dots> \<le> n + bs - 1" by (rule div_times_less_eq_dividend)
  finally have "(k + 1) * bs \<le> n + bs - 1" .
  moreover have "(k + 1) * bs = k * bs + bs" by (simp only: add_mult_distrib mult_1)
  ultimately have "k * bs + bs \<le> n + bs - 1" by (simp only:)
  then show ?thesis using assms(1) by linarith
qed

lemma chunks_cover:
  fixes n bs :: nat
  assumes "1 \<le> bs"
  shows "n \<le> ((n + bs - 1) div bs) * bs"
proof -
  have "0 < bs" using assms by simp
  from dividend_less_div_times[OF this, of "n + bs - 1"]
  have "n + bs - 1 < bs + (n + bs - 1) div bs * bs" .
  then show ?thesis using assms by linarith
qed

text \<open>
  Claim C6: for a batch size of at least 1, the number of batches is the ceiling of the
  number of filtered entries divided by the batch size (0 when nothing matches); a
  batch number outside 1..total gives no record and no error; and the batches 1..total,
  one after the other, are the filtered entries in their order, none twice and none
  missing, the record at position \<open>j\<close> (from 0) with the display id \<open>j + 1\<close>.
\<close>

theorem extract_batch_complete:
  assumes "1 \<le> batch_size"
  shows "\<exists>total rss.
     total = \<lceil>real (length (filter_entries es mode)) / real_of_int batch_size\<rceil> \<and>
     (filter_entries es mode = [] \<longrightarrow> total = 0) \<and>
     (\<forall>k. k < 1 \<or> total < k \<longrightarrow> extract_batch es k batch_size sm mode = Inr ([], total)) \<and>
     length rss = nat total \<and>
     (\<forall>k<nat total. extract_batch es (int k + 1) batch_size sm mode = Inr (rss ! k, total)) \<and>
     length (concat rss) = length (filter_entries es mode) \<and>
     (\<forall>j<length (filter_entries es mode).
        r_id (concat rss ! j) = int j + 1 \<and>
        r_msgid (concat rss ! j) = msgid (filter_entries es mode ! j) \<and>
        r_current_msgstr (concat rss ! j) = msgstr (filter_entries es mode ! j) \<and>
        r_is_fuzzy (concat rss ! j) = is_fuzzy (filter_entries es mode ! j) \<and>
        r_references (concat rss ! j) = take 3 (references (filter_entries es mode ! j)) \<and>
        r_context (concat rss ! j) = get_context_summary (filter_entries es mode ! j))"
proof -
  define f where "f = filter_entries es mode"
  define n where "n = length f"
  define bs where "bs = nat batch_size"
  define t where "t = (n + bs - 1) div bs"
  define h where "h = (\<lambda>p. record_of sm (int p + 1) (f ! p))"
  define rss where "rss = map (\<lambda>k. map h [k * bs..<min ((k + 1) * bs) n]) [0..<t]"
  have bs: "1 \<le> bs" "batch_size = int bs" using assms by (simp_all add: bs_def)
  have tot: "(if f \<noteq> [] then (int (length f) + batch_size - 1) div batch_size else 0) = int t"
    unfolding bs(2) t_def n_def by (rule total_batches_nat[OF bs(1)])
  have nz: "batch_size \<noteq> 0" using assms by simp
  have eb: "extract_batch es k batch_size sm mode =
      (if k < 1 \<or> int t < k then Inr ([], int t)
       else (case batch_records sm ((k - 1) * batch_size) 0
                    (py_slice f ((k - 1) * batch_size)
                       (min ((k - 1) * batch_size + batch_size) (int (length f)))) of
               Inl err \<Rightarrow> Inl err
             | Inr rs \<Rightarrow> Inr (rs, int t)))" for k
    by (simp only: extract_batch_def Let_def f_def[symmetric] tot) (simp add: nz)
  have ceil: "\<lceil>real n / real_of_int batch_size\<rceil> = int t"
    unfolding bs(2) t_def using ceil_div[OF bs(1), of n] by simp
  have empty: "f = [] \<longrightarrow> int t = 0"
    using bs(1) by (auto simp: t_def n_def)
  have outside: "\<forall>k. k < 1 \<or> int t < k \<longrightarrow> extract_batch es k batch_size sm mode = Inr ([], int t)"
    by (auto simp: eb)
  have inside: "extract_batch es (int k + 1) batch_size sm mode = Inr (rss ! k, int t)" if "k < t" for k
  proof -
    have le: "k * bs \<le> length f"
      using chunk_start_le[OF bs(1), of k n] that by (simp add: t_def n_def)
    have sc: "py_slice f (int k * int bs) (min (int k * int bs + int bs) (int (length f))) =
              take bs (drop (k * bs) f)"
      using slice_chunk[OF le, of bs] by simp
    have br: "batch_records sm (int k * int bs) 0 (take bs (drop (k * bs) f)) =
          Inr (map h [k * bs..<min ((k + 1) * bs) n])"
      unfolding batch_records_eq h_def n_def using chunk_records[OF le, of sm] by simp
    have rk: "rss ! k = map h [k * bs..<min ((k + 1) * bs) n]"
      using that by (simp add: rss_def)
    show ?thesis
      by (subst eb) (use that br rk sc in \<open>simp add: bs(2)\<close>)
  qed
  have cc: "concat rss = map h [0..<n]"
  proof -
    have "0 < bs" using bs(1) by simp
    from concat_chunks[OF this, of h n t]
    have "concat rss = map h [0..<min (t * bs) n]" by (simp add: rss_def)
    moreover have "n \<le> t * bs" unfolding t_def by (rule chunks_cover[OF bs(1)])
    ultimately show ?thesis by (simp add: min_def)
  qed
  have len: "length rss = nat (int t)" by (simp add: rss_def)
  have recs: "\<forall>j<n. r_id (concat rss ! j) = int j + 1 \<and>
        r_msgid (concat rss ! j) = msgid (f ! j) \<and>
        r_current_msgstr (concat rss ! j) = msgstr (f ! j) \<and>
        r_is_fuzzy (concat rss ! j) = is_fuzzy (f ! j) \<and>
        r_references (concat rss ! j) = take 3 (references (f ! j)) \<and>
        r_context (concat rss ! j) = get_context_summary (f ! j)"
    by (simp add: cc h_def record_of_def)
  have "int t = \<lceil>real (length f) / real_of_int batch_size\<rceil> \<and>
     (f = [] \<longrightarrow> int t = 0) \<and>
     (\<forall>k. k < 1 \<or> int t < k \<longrightarrow> extract_batch es k batch_size sm mode = Inr ([], int t)) \<and>
     length rss = nat (int t) \<and>
     (\<forall>k<nat (int t). extract_batch es (int k + 1) batch_size sm mode = Inr (rss ! k, int t)) \<and>
     length (concat rss) = length f \<and>
     (\<forall>j<length f.
        r_id (concat rss ! j) = int j + 1 \<and>
        r_msgid (concat rss ! j) = msgid (f ! j) \<and>
        r_current_msgstr (concat rss ! j) = msgstr (f ! j) \<and>
        r_is_fuzzy (concat rss ! j) = is_fuzzy (f ! j) \<and>
        r_references (concat rss ! j) = take 3 (references (f ! j)) \<and>
        r_context (concat rss ! j) = get_context_summary (f ! j))"
    using ceil empty outside len recs cc inside by (simp only: n_def nat_int length_map length_upt diff_zero) blast
  then show ?thesis unfolding f_def by (intro exI[of _ "int t"] exI[of _ rss])
qed


theorem extract_batch_complete_witness:
  "(1::int) \<le> 2 \<and>
   (\<exists>total rss.
     total = \<lceil>real (length (filter_entries
               [new_POEntry\<lparr>msgid := ''a''\<rparr>, new_POEntry\<lparr>msgid := ''b''\<rparr>,
                new_POEntry\<lparr>msgid := ''c''\<rparr>] ''all'')) / real_of_int 2\<rceil> \<and>
     length rss = nat total \<and>
     (\<forall>k<nat total.
        extract_batch
          [new_POEntry\<lparr>msgid := ''a''\<rparr>, new_POEntry\<lparr>msgid := ''b''\<rparr>,
           new_POEntry\<lparr>msgid := ''c''\<rparr>] (int k + 1) 2 [] ''all'' = Inr (rss ! k, total)) \<and>
     length (concat rss) = 3 \<and>
     map r_id (concat rss) = [1, 2, 3])"
proof -
  let ?es = "[new_POEntry\<lparr>msgid := ''a''\<rparr>, new_POEntry\<lparr>msgid := ''b''\<rparr>,
              new_POEntry\<lparr>msgid := ''c''\<rparr>]"
  have h: "(1::int) \<le> 2" by simp
  have f: "filter_entries ?es ''all'' = ?es"
    by (simp add: filter_entries_def keeps_def new_POEntry_def is_verified_def is_translated_def)
  from extract_batch_complete[OF h, of ?es "''all''" "[]"]
  obtain total rss where
    a: "total = \<lceil>real (length (filter_entries ?es ''all'')) / real_of_int 2\<rceil>" and
    b: "length rss = nat total" and
    c: "\<forall>k<nat total. extract_batch ?es (int k + 1) 2 [] ''all'' = Inr (rss ! k, total)" and
    d: "length (concat rss) = length (filter_entries ?es ''all'')" and
    e: "\<forall>j<length (filter_entries ?es ''all''). r_id (concat rss ! j) = int j + 1"
    by blast
  from d f have d3: "length (concat rss) = 3" by simp
  from e f have e3: "\<forall>j<3. r_id (concat rss ! j) = int j + 1" by simp
  have "map r_id (concat rss) = map (\<lambda>j. int j + 1) [0..<3]"
    by (rule nth_equalityI) (use d3 e3 in simp_all)
  also have "\<dots> = [1, 2, 3]" by code_simp
  finally have m: "map r_id (concat rss) = [1, 2, 3]" .
  have "\<exists>total rss.
     total = \<lceil>real (length (filter_entries ?es ''all'')) / real_of_int 2\<rceil> \<and>
     length rss = nat total \<and>
     (\<forall>k<nat total. extract_batch ?es (int k + 1) 2 [] ''all'' = Inr (rss ! k, total)) \<and>
     length (concat rss) = 3 \<and>
     map r_id (concat rss) = [1, 2, 3]"
    by (rule exI[where x = total], rule exI[where x = rss])
       (rule conjI[OF a conjI[OF b conjI[OF c conjI[OF d3 m]]]])
  with h show ?thesis by (rule conjI)
qed


section \<open>Placeholders\<close>

lemma res_errors_add_warning [simp]: "res_errors (add_warning r c m l) = res_errors r"
  by (simp add: add_warning_def)

lemma res_errors_add_error [simp]:
  "res_errors (add_error r c m l) = res_errors r @ [issue_text c m l]"
  by (simp add: add_error_def)

lemma res_errors_check_placeholders:
  "res_errors (check_placeholders src tgt line xs res) =
     res_errors res @
     map (\<lambda>i. issue_text ''PLACEHOLDER_MISMATCH''
                 (mismatch_message i (py_count src (placeholder i)) (py_count tgt (placeholder i)))
                 (Some line))
         (filter (\<lambda>i. py_count src (placeholder i) \<noteq> py_count tgt (placeholder i)) xs)"
  by (induction xs arbitrary: res) (simp_all add: Let_def)

lemma res_errors_check_term [simp]:
  "res_errors (check_term src tgt line t r) = res_errors r"
  by (simp add: check_term_def)

lemma res_errors_fold_check_term [simp]:
  "res_errors (fold (check_term src tgt line) ts r) = res_errors r"
  by (induction ts arbitrary: r) simp_all

lemma res_errors_check_brand:
  "res_errors (check_brand src tgt line b r) = res_errors r @ brand_errors src tgt line [b]"
  by (simp add: check_brand_def brand_errors_def split: list.splits)

lemma brand_errors_Cons:
  "brand_errors src tgt line (b # bs) = brand_errors src tgt line [b] @ brand_errors src tgt line bs"
  by (simp add: brand_errors_def)

lemma res_errors_fold_check_brand:
  "res_errors (fold (check_brand src tgt line) bs r) = res_errors r @ brand_errors src tgt line bs"
proof (induction bs arbitrary: r)
  case Nil
  then show ?case by (simp add: brand_errors_def)
next
  case (Cons b bs)
  show ?case
    by (simp add: Cons.IH res_errors_check_brand brand_errors_Cons[of _ _ _ b bs])
qed

lemma reported_errors_eq:
  assumes "v_msgid entry \<noteq> []" "v_msgstr entry \<noteq> []"
  shows "reported_errors entry res lang =
     map (\<lambda>i. issue_text ''PLACEHOLDER_MISMATCH''
                 (mismatch_message i (py_count (v_msgid entry) (placeholder i))
                                     (py_count (v_msgstr entry) (placeholder i)))
                 (Some (v_line_number entry)))
         (filter (\<lambda>i. py_count (v_msgid entry) (placeholder i) \<noteq> py_count (v_msgstr entry) (placeholder i))
                 [1..<10]) @
     format_errors (v_msgid entry) (v_msgstr entry) (v_line_number entry) @
     brand_errors (v_msgid entry) (v_msgstr entry) (v_line_number entry) BRAND_NAMES"
  using assms
  by (simp add: reported_errors_def validate_entry_def Let_def res_errors_fold_check_brand
      res_errors_check_placeholders format_errors_def del: upt_Suc)


lemma mismatch_issue_starts:
  "startswith (issue_text ''PLACEHOLDER_MISMATCH'' m l) ''[PLACEHOLDER_MISMATCH]''"
  by (simp add: issue_text_def startswith_def)

lemma format_errors_not_mismatch:
  "x \<in> set (format_errors src tgt line) \<Longrightarrow> \<not> startswith x ''[PLACEHOLDER_MISMATCH]''"
  by (auto simp: format_errors_def issue_text_def startswith_def split: if_splits)

lemma brand_errors_not_mismatch:
  "x \<in> set (brand_errors src tgt line bs) \<Longrightarrow> \<not> startswith x ''[PLACEHOLDER_MISMATCH]''"
  by (auto simp: brand_errors_def issue_text_def startswith_def split: if_splits list.splits)

lemma range_1_9: "(i::nat) \<in> {1..9} \<longleftrightarrow> i \<in> set [1..<10]"
  by auto

lemma mismatch_errors_translated:
  assumes "v_msgid entry \<noteq> []" and "v_msgstr entry \<noteq> []"
  shows "((\<forall>x\<in>set (reported_errors entry res lang). \<not> startswith x ''[PLACEHOLDER_MISMATCH]'') \<longleftrightarrow>
          (\<forall>i\<in>{1..9}. py_count (v_msgid entry) (placeholder i) =
                       py_count (v_msgstr entry) (placeholder i))) \<and>
         (\<forall>i\<in>{1..9}.
            py_count (v_msgid entry) (placeholder i) \<noteq> py_count (v_msgstr entry) (placeholder i) \<longrightarrow>
            ''[PLACEHOLDER_MISMATCH] '' @ line_prefix (Some (v_line_number entry)) @
            placeholder i @ '' count mismatch: msgid has '' @
            py_str (py_count (v_msgid entry) (placeholder i)) @ '', msgstr has '' @
            py_str (py_count (v_msgstr entry) (placeholder i))
              \<in> set (reported_errors entry res lang))"
proof -
  let ?src = "v_msgid entry" and ?tgt = "v_msgstr entry" and ?line = "v_line_number entry"
  let ?msg = "\<lambda>i. issue_text ''PLACEHOLDER_MISMATCH''
                 (mismatch_message i (py_count ?src (placeholder i)) (py_count ?tgt (placeholder i)))
                 (Some ?line)"
  let ?bad = "filter (\<lambda>i. py_count ?src (placeholder i) \<noteq> py_count ?tgt (placeholder i)) [1..<10]"
  have eq: "reported_errors entry res lang =
              map ?msg ?bad @ format_errors ?src ?tgt ?line @ brand_errors ?src ?tgt ?line BRAND_NAMES"
    by (rule reported_errors_eq[OF assms])
  have msg: "?msg i = ''[PLACEHOLDER_MISMATCH] '' @ line_prefix (Some ?line) @
            placeholder i @ '' count mismatch: msgid has '' @
            py_str (py_count ?src (placeholder i)) @ '', msgstr has '' @
            py_str (py_count ?tgt (placeholder i))" for i
    by (simp add: issue_text_def mismatch_message_def)
  have part2: "\<forall>i\<in>{1..9}.
            py_count ?src (placeholder i) \<noteq> py_count ?tgt (placeholder i) \<longrightarrow>
            ?msg i \<in> set (reported_errors entry res lang)"
    unfolding eq range_1_9 by simp
  have part1: "(\<forall>x\<in>set (reported_errors entry res lang). \<not> startswith x ''[PLACEHOLDER_MISMATCH]'') \<longleftrightarrow>
          (\<forall>i\<in>{1..9}. py_count ?src (placeholder i) = py_count ?tgt (placeholder i))"
  proof
    assume none: "\<forall>x\<in>set (reported_errors entry res lang). \<not> startswith x ''[PLACEHOLDER_MISMATCH]''"
    show "\<forall>i\<in>{1..9}. py_count ?src (placeholder i) = py_count ?tgt (placeholder i)"
    proof (rule ccontr)
      assume "\<not> ?thesis"
      then obtain i where i: "i \<in> {1..9}" "py_count ?src (placeholder i) \<noteq> py_count ?tgt (placeholder i)"
        by blast
      with part2 have "?msg i \<in> set (reported_errors entry res lang)" by blast
      with none have "\<not> startswith (?msg i) ''[PLACEHOLDER_MISMATCH]''" by blast
      then show False using mismatch_issue_starts by blast
    qed
  next
    assume all: "\<forall>i\<in>{1..9}. py_count ?src (placeholder i) = py_count ?tgt (placeholder i)"
    then have "?bad = []" unfolding range_1_9 by (simp add: filter_empty_conv del: upt_Suc)
    then have "reported_errors entry res lang =
                 format_errors ?src ?tgt ?line @ brand_errors ?src ?tgt ?line BRAND_NAMES"
      unfolding eq by simp
    then show "\<forall>x\<in>set (reported_errors entry res lang). \<not> startswith x ''[PLACEHOLDER_MISMATCH]''"
      using format_errors_not_mismatch brand_errors_not_mismatch by auto
  qed
  show ?thesis using part1 part2 unfolding msg by blast
qed

lemma empty_translation_unchecked:
  assumes "v_msgid entry \<noteq> []" and "v_msgstr entry = []"
  shows "validate_entry entry res lang =
           add_warning res ''EMPTY_TRANSLATION''
             (''Untranslated: '' @ take 50 (v_msgid entry) @ ''...'') (Some (v_line_number entry))"
    and "reported_errors entry res lang = []"
  using assms
  by (simp_all add: validate_entry_def reported_errors_def add_warning_def Let_def)

text \<open>
  Claim C7, amended: for an entry whose source and translation are both non-empty,
  validation reports no PLACEHOLDER\_MISMATCH error exactly when every token \<open>%1\<close> to
  \<open>%9\<close> occurs as often in the source as in the translation, and every token whose
  counts differ has its error, which names the token and the two counts. An entry with
  a non-empty source and an empty translation is not checked for placeholders at all:
  validation adds the EMPTY\_TRANSLATION warning to the result and nothing else, so it
  reports no error.
\<close>

theorem placeholder_counts:
  assumes "v_msgid entry \<noteq> []"
  shows "(v_msgstr entry \<noteq> [] \<longrightarrow>
          ((\<forall>x\<in>set (reported_errors entry res lang). \<not> startswith x ''[PLACEHOLDER_MISMATCH]'') \<longleftrightarrow>
           (\<forall>i\<in>{1..9}. py_count (v_msgid entry) (placeholder i) =
                        py_count (v_msgstr entry) (placeholder i))) \<and>
          (\<forall>i\<in>{1..9}.
             py_count (v_msgid entry) (placeholder i) \<noteq> py_count (v_msgstr entry) (placeholder i) \<longrightarrow>
             ''[PLACEHOLDER_MISMATCH] '' @ line_prefix (Some (v_line_number entry)) @
             placeholder i @ '' count mismatch: msgid has '' @
             py_str (py_count (v_msgid entry) (placeholder i)) @ '', msgstr has '' @
             py_str (py_count (v_msgstr entry) (placeholder i))
               \<in> set (reported_errors entry res lang))) \<and>
         (v_msgstr entry = [] \<longrightarrow>
          validate_entry entry res lang =
            add_warning res ''EMPTY_TRANSLATION''
              (''Untranslated: '' @ take 50 (v_msgid entry) @ ''...'') (Some (v_line_number entry)) \<and>
          reported_errors entry res lang = [])"
proof (intro conjI impI)
  assume t: "v_msgstr entry \<noteq> []"
  note tr = mismatch_errors_translated[OF assms t, of res lang]
  from tr show "(\<forall>x\<in>set (reported_errors entry res lang). \<not> startswith x ''[PLACEHOLDER_MISMATCH]'') \<longleftrightarrow>
           (\<forall>i\<in>{1..9}. py_count (v_msgid entry) (placeholder i) =
                        py_count (v_msgstr entry) (placeholder i))"
    by (rule conjunct1)
  from tr show "\<forall>i\<in>{1..9}.
             py_count (v_msgid entry) (placeholder i) \<noteq> py_count (v_msgstr entry) (placeholder i) \<longrightarrow>
             ''[PLACEHOLDER_MISMATCH] '' @ line_prefix (Some (v_line_number entry)) @
             placeholder i @ '' count mismatch: msgid has '' @
             py_str (py_count (v_msgid entry) (placeholder i)) @ '', msgstr has '' @
             py_str (py_count (v_msgstr entry) (placeholder i))
               \<in> set (reported_errors entry res lang)"
    by (rule conjunct2)
next
  assume e: "v_msgstr entry = []"
  show "validate_entry entry res lang =
            add_warning res ''EMPTY_TRANSLATION''
              (''Untranslated: '' @ take 50 (v_msgid entry) @ ''...'') (Some (v_line_number entry))"
    by (rule empty_translation_unchecked(1)[OF assms e])
next
  assume e: "v_msgstr entry = []"
  show "reported_errors entry res lang = []"
    by (rule empty_translation_unchecked(2)[OF assms e])
qed


theorem placeholder_counts_witness:
  "v_msgid (new_VEntry\<lparr>v_msgid := ''Page %1 of %2'', v_msgstr := ''Seite %1'', v_line_number := 7\<rparr>) \<noteq> [] \<and>
   v_msgstr (new_VEntry\<lparr>v_msgid := ''Page %1 of %2'', v_msgstr := ''Seite %1'', v_line_number := 7\<rparr>) \<noteq> [] \<and>
   py_count ''Page %1 of %2'' (placeholder 2) \<noteq> py_count ''Seite %1'' (placeholder 2) \<and>
   ''[PLACEHOLDER_MISMATCH] Line 7: %2 count mismatch: msgid has 1, msgstr has 0''
     \<in> set (reported_errors
              (new_VEntry\<lparr>v_msgid := ''Page %1 of %2'', v_msgstr := ''Seite %1'', v_line_number := 7\<rparr>)
              new_ValidationResult ''de'') \<and>
   v_msgid (new_VEntry\<lparr>v_msgid := ''Page %1 of %2'', v_line_number := 7\<rparr>) \<noteq> [] \<and>
   v_msgstr (new_VEntry\<lparr>v_msgid := ''Page %1 of %2'', v_line_number := 7\<rparr>) = [] \<and>
   validate_entry (new_VEntry\<lparr>v_msgid := ''Page %1 of %2'', v_line_number := 7\<rparr>)
     new_ValidationResult ''de'' =
     new_ValidationResult
       \<lparr>res_warnings := [''[EMPTY_TRANSLATION] Line 7: Untranslated: Page %1 of %2...'']\<rparr> \<and>
   reported_errors (new_VEntry\<lparr>v_msgid := ''Page %1 of %2'', v_line_number := 7\<rparr>)
     new_ValidationResult ''de'' = []"
proof -
  let ?e = "new_VEntry\<lparr>v_msgid := ''Page %1 of %2'', v_msgstr := ''Seite %1'', v_line_number := 7\<rparr>"
  let ?u = "new_VEntry\<lparr>v_msgid := ''Page %1 of %2'', v_line_number := 7\<rparr>"
  have h1: "v_msgid ?e \<noteq> []" and h2: "v_msgstr ?e \<noteq> []" by simp_all
  have c1: "py_count ''Page %1 of %2'' (placeholder 2) = 1" by code_simp
  have c2: "py_count ''Seite %1'' (placeholder 2) = 0" by code_simp
  have m: "''[PLACEHOLDER_MISMATCH] '' @ line_prefix (Some 7) @ placeholder 2 @
           '' count mismatch: msgid has '' @ py_str 1 @ '', msgstr has '' @ py_str 0 =
           ''[PLACEHOLDER_MISMATCH] Line 7: %2 count mismatch: msgid has 1, msgstr has 0''"
    by code_simp
  have sel: "v_msgid ?e = ''Page %1 of %2''" "v_msgstr ?e = ''Seite %1''" "v_line_number ?e = 7"
    by simp_all
  have two: "(2::nat) \<in> {1..9}" by simp
  have ne: "py_count ''Page %1 of %2'' (placeholder 2) \<noteq> py_count ''Seite %1'' (placeholder 2)"
    unfolding c1 c2 by simp
  note translated = placeholder_counts[OF h1, of new_ValidationResult "''de''"]
  from conjunct2[OF mp[OF conjunct1[OF translated] h2]]
  have "\<forall>i\<in>{1..9}.
          py_count ''Page %1 of %2'' (placeholder i) \<noteq> py_count ''Seite %1'' (placeholder i) \<longrightarrow>
          ''[PLACEHOLDER_MISMATCH] '' @ line_prefix (Some 7) @ placeholder i @
          '' count mismatch: msgid has '' @ py_str (py_count ''Page %1 of %2'' (placeholder i)) @
          '', msgstr has '' @ py_str (py_count ''Seite %1'' (placeholder i))
            \<in> set (reported_errors ?e new_ValidationResult ''de'')"
    unfolding sel .
  from bspec[OF this two] ne
  have "''[PLACEHOLDER_MISMATCH] '' @ line_prefix (Some 7) @ placeholder 2 @
          '' count mismatch: msgid has '' @ py_str (py_count ''Page %1 of %2'' (placeholder 2)) @
          '', msgstr has '' @ py_str (py_count ''Seite %1'' (placeholder 2))
            \<in> set (reported_errors ?e new_ValidationResult ''de'')"
    by (rule mp)
  then have r: "''[PLACEHOLDER_MISMATCH] Line 7: %2 count mismatch: msgid has 1, msgstr has 0''
            \<in> set (reported_errors ?e new_ValidationResult ''de'')"
    unfolding c1 c2 m .
  have u1: "v_msgid ?u \<noteq> []" by simp
  have u2: "v_msgstr ?u = []" by (simp add: new_VEntry_def)
  have w: "add_warning new_ValidationResult ''EMPTY_TRANSLATION''
             (''Untranslated: '' @ take 50 (v_msgid ?u) @ ''...'') (Some (v_line_number ?u)) =
           new_ValidationResult
             \<lparr>res_warnings := [''[EMPTY_TRANSLATION] Line 7: Untranslated: Page %1 of %2...'']\<rparr>"
    by code_simp
  note untranslated = mp[OF conjunct2[OF placeholder_counts[OF u1, of new_ValidationResult "''de''"]] u2]
  from conjunct1[OF untranslated]
  have v: "validate_entry ?u new_ValidationResult ''de'' =
           new_ValidationResult
             \<lparr>res_warnings := [''[EMPTY_TRANSLATION] Line 7: Untranslated: Page %1 of %2...'']\<rparr>"
    unfolding w .
  note n = conjunct2[OF untranslated]
  from h1 h2 ne r u1 u2 v n show ?thesis by (intro conjI)
qed

text \<open>
  Claim C7 as stated, for every entry with a non-empty source, fails on an entry with an
  empty translation: validation returns after the EMPTY\_TRANSLATION warning, no error
  is reported, and \<open>%1\<close> occurs once in the source and never in the translation.
\<close>

theorem empty_translation_counterexample:
  "v_msgid (new_VEntry\<lparr>v_msgid := ''Delete %1 item(s)?''\<rparr>) \<noteq> [] \<and>
   reported_errors (new_VEntry\<lparr>v_msgid := ''Delete %1 item(s)?''\<rparr>) new_ValidationResult ''fr'' = [] \<and>
   py_count (v_msgid (new_VEntry\<lparr>v_msgid := ''Delete %1 item(s)?''\<rparr>)) (placeholder 1) = 1 \<and>
   py_count (v_msgstr (new_VEntry\<lparr>v_msgid := ''Delete %1 item(s)?''\<rparr>)) (placeholder 1) = 0"
  by code_simp

lemma contains_pair:
  "contains s [a, b] \<longleftrightarrow> (\<exists>pre post. s = pre @ a # b # post)"
proof (induction s)
  case Nil
  then show ?case by simp
next
  case (Cons c cs)
  have "startswith (c # cs) [a, b] \<longleftrightarrow> (\<exists>post. c # cs = a # b # post)"
    by (cases cs) (auto simp: startswith_def)
  then show ?case
    by (auto simp: Cons.IH Cons_eq_append_conv)
qed

lemma has_numbered_append:
  "b \<in> set ''123456789'' \<Longrightarrow> has_numbered (pre @ CHR ''%'' # b # post)"
proof (induction pre)
  case Nil
  then show ?case by simp
next
  case (Cons c pre)
  then show ?case by (cases "pre @ CHR ''%'' # b # post") auto
qed

lemma findall_printf_append:
  "b \<in> set ''sdf'' \<Longrightarrow> findall_printf (pre @ CHR ''%'' # b # post) \<noteq> []"
proof (induction pre)
  case Nil
  then show ?case by simp
next
  case (Cons c pre)
  then show ?case by (cases pre) auto
qed

lemma placeholder_digit:
  assumes "i \<in> {1..9}"
  shows "\<exists>d. placeholder i = [CHR ''%'', d] \<and> d \<in> set ''123456789''"
proof -
  from assms have "i = 1 \<or> i = 2 \<or> i = 3 \<or> i = 4 \<or> i = 5 \<or> i = 6 \<or> i = 7 \<or> i = 8 \<or> i = 9"
    by auto
  then show ?thesis
    by (elim disjE) (simp_all add: placeholder_def py_str.simps)
qed


lemma numbered_token_found:
  assumes "\<exists>i\<in>{1..9}. contains src (placeholder i)"
  shows "has_numbered src"
proof -
  from assms obtain i where i: "i \<in> {1..9}" "contains src (placeholder i)" by blast
  from placeholder_digit[OF i(1)] obtain d where
    d: "placeholder i = [CHR ''%'', d]" "d \<in> set ''123456789''" by blast
  from i(2) d(1) obtain pre post where "src = pre @ CHR ''%'' # d # post"
    by (auto simp: contains_pair)
  with has_numbered_append[OF d(2)] show ?thesis by simp
qed

lemma printf_token_found:
  assumes "contains tgt ''%s'' \<or> contains tgt ''%d'' \<or> contains tgt ''%f''"
  shows "findall_printf tgt \<noteq> []"
proof -
  from assms obtain b pre post where "b \<in> set ''sdf''" "tgt = pre @ CHR ''%'' # b # post"
    by (auto simp: contains_pair)
  then show ?thesis using findall_printf_append by blast
qed

text \<open>
  Claim C8: when the source has a token \<open>%1\<close> to \<open>%9\<close> and the non-empty translation has
  one of \<open>%s\<close>, \<open>%d\<close>, \<open>%f\<close>, validation reports a WRONG\_PLACEHOLDER\_FORMAT error; and
  for the source \<open>Cache size: %1 MB\<close> with the translation \<open>Taille du cache : %d Mo\<close>
  the errors reported are a PLACEHOLDER\_MISMATCH error (1 against 0) and a
  WRONG\_PLACEHOLDER\_FORMAT error.
\<close>

theorem wrong_placeholder_format:
  assumes "\<exists>i\<in>{1..9}. contains (v_msgid entry) (placeholder i)"
    and "v_msgstr entry \<noteq> []"
    and "contains (v_msgstr entry) ''%s'' \<or> contains (v_msgstr entry) ''%d'' \<or>
         contains (v_msgstr entry) ''%f''"
  shows "''[WRONG_PLACEHOLDER_FORMAT] '' @ line_prefix (Some (v_line_number entry)) @
         ''msgstr uses '' @ repr_list (findall_printf (v_msgstr entry)) @
         '' but msgid uses %1 format''
           \<in> set (reported_errors entry res lang) \<and>
         reported_errors
           (new_VEntry\<lparr>v_msgid := ''Cache size: %1 MB'', v_msgstr := ''Taille du cache : %d Mo''\<rparr>)
           res lang =
           [''[PLACEHOLDER_MISMATCH] %1 count mismatch: msgid has 1, msgstr has 0'',
            ''[WRONG_PLACEHOLDER_FORMAT] msgstr uses ['' @ [SQ] @ ''%d'' @ [SQ] @
            ''] but msgid uses %1 format'']"
proof
  have num: "has_numbered (v_msgid entry)" by (rule numbered_token_found[OF assms(1)])
  then have ne: "v_msgid entry \<noteq> []" by auto
  have pf: "findall_printf (v_msgstr entry) \<noteq> []" by (rule printf_token_found[OF assms(3)])
  have "issue_text ''WRONG_PLACEHOLDER_FORMAT''
          (''msgstr uses '' @ repr_list (findall_printf (v_msgstr entry)) @ '' but msgid uses %1 format'')
          (Some (v_line_number entry)) \<in> set (reported_errors entry res lang)"
    unfolding reported_errors_eq[OF ne assms(2)] using num pf by (simp add: format_errors_def)
  then show "''[WRONG_PLACEHOLDER_FORMAT] '' @ line_prefix (Some (v_line_number entry)) @
         ''msgstr uses '' @ repr_list (findall_printf (v_msgstr entry)) @
         '' but msgid uses %1 format'' \<in> set (reported_errors entry res lang)"
    by (simp add: issue_text_def)
next
  let ?e = "new_VEntry\<lparr>v_msgid := ''Cache size: %1 MB'', v_msgstr := ''Taille du cache : %d Mo''\<rparr>"
  have h: "v_msgid ?e \<noteq> []" "v_msgstr ?e \<noteq> []" by simp_all
  have "map (\<lambda>i. issue_text ''PLACEHOLDER_MISMATCH''
                 (mismatch_message i (py_count (v_msgid ?e) (placeholder i))
                                     (py_count (v_msgstr ?e) (placeholder i)))
                 (Some (v_line_number ?e)))
         (filter (\<lambda>i. py_count (v_msgid ?e) (placeholder i) \<noteq> py_count (v_msgstr ?e) (placeholder i))
                 [1..<10]) @
     format_errors (v_msgid ?e) (v_msgstr ?e) (v_line_number ?e) @
     brand_errors (v_msgid ?e) (v_msgstr ?e) (v_line_number ?e) BRAND_NAMES =
     [''[PLACEHOLDER_MISMATCH] %1 count mismatch: msgid has 1, msgstr has 0'',
      ''[WRONG_PLACEHOLDER_FORMAT] msgstr uses ['' @ [SQ] @ ''%d'' @ [SQ] @
      ''] but msgid uses %1 format'']"
    by code_simp
  then show "reported_errors ?e res lang =
           [''[PLACEHOLDER_MISMATCH] %1 count mismatch: msgid has 1, msgstr has 0'',
            ''[WRONG_PLACEHOLDER_FORMAT] msgstr uses ['' @ [SQ] @ ''%d'' @ [SQ] @
            ''] but msgid uses %1 format'']"
    unfolding reported_errors_eq[OF h] .
qed

theorem wrong_placeholder_format_witness:
  "(\<exists>i\<in>{1..9}. contains ''Battery at %1 %'' (placeholder i)) \<and>
   contains ''Batterie bei %s %'' ''%s'' \<and>
   ''[WRONG_PLACEHOLDER_FORMAT] Line 3: msgstr uses ['' @ [SQ] @ ''%s'' @ [SQ] @
   ''] but msgid uses %1 format''
     \<in> set (reported_errors
              (new_VEntry\<lparr>v_msgid := ''Battery at %1 %'', v_msgstr := ''Batterie bei %s %'',
                          v_line_number := 3\<rparr>) new_ValidationResult ''de'')"
proof -
  let ?e = "new_VEntry\<lparr>v_msgid := ''Battery at %1 %'', v_msgstr := ''Batterie bei %s %'',
                       v_line_number := 3\<rparr>"
  have sel: "v_msgid ?e = ''Battery at %1 %''" "v_msgstr ?e = ''Batterie bei %s %''"
    "v_line_number ?e = 3" by simp_all
  have c1: "contains ''Battery at %1 %'' (placeholder 1)" by code_simp
  have "(1::nat) \<in> {1..9}" by simp
  with c1 have h1: "\<exists>i\<in>{1..9}. contains (v_msgid ?e) (placeholder i)" unfolding sel by blast
  have h2: "v_msgstr ?e \<noteq> []" by simp
  have c3: "contains ''Batterie bei %s %'' ''%s''" by code_simp
  then have h3: "contains (v_msgstr ?e) ''%s'' \<or> contains (v_msgstr ?e) ''%d'' \<or>
                 contains (v_msgstr ?e) ''%f''" unfolding sel by (rule disjI1)
  have m: "''[WRONG_PLACEHOLDER_FORMAT] '' @ line_prefix (Some 3) @
         ''msgstr uses '' @ repr_list (findall_printf ''Batterie bei %s %'') @
         '' but msgid uses %1 format'' =
         ''[WRONG_PLACEHOLDER_FORMAT] Line 3: msgstr uses ['' @ [SQ] @ ''%s'' @ [SQ] @
         ''] but msgid uses %1 format''"
    by code_simp
  from wrong_placeholder_format[OF h1 h2 h3, of new_ValidationResult "''de''"]
  have "''[WRONG_PLACEHOLDER_FORMAT] '' @ line_prefix (Some 3) @
         ''msgstr uses '' @ repr_list (findall_printf ''Batterie bei %s %'') @
         '' but msgid uses %1 format'' \<in> set (reported_errors ?e new_ValidationResult ''de'')"
    unfolding sel by (rule conjunct1)
  then have "''[WRONG_PLACEHOLDER_FORMAT] Line 3: msgstr uses ['' @ [SQ] @ ''%s'' @ [SQ] @
         ''] but msgid uses %1 format'' \<in> set (reported_errors ?e new_ValidationResult ''de'')"
    unfolding m .
  with h1 c3 show ?thesis unfolding sel by (intro conjI)
qed


section \<open>Import and the verified entries\<close>

lemma msgid_to_entry_last:
  "msgid_to_entry es k =
     (if k = [] \<or> filter (\<lambda>x. msgid x = k) es = [] then None
      else Some (last (filter (\<lambda>x. msgid x = k) es)))"
proof (induction es rule: rev_induct)
  case Nil
  then show ?case by (simp add: msgid_to_entry_def)
next
  case (snoc x xs)
  then show ?case by (auto simp: msgid_to_entry_def)
qed

lemma msgid_to_entry_SomeD:
  "msgid_to_entry es k = Some e \<Longrightarrow> k \<noteq> [] \<and> e \<in> set es \<and> msgid e = k"
proof -
  assume a: "msgid_to_entry es k = Some e"
  then have ne: "k \<noteq> []" "filter (\<lambda>x. msgid x = k) es \<noteq> []"
    and e: "e = last (filter (\<lambda>x. msgid x = k) es)"
    by (auto simp: msgid_to_entry_last split: if_splits)
  from last_in_set[OF ne(2)] e have "e \<in> set (filter (\<lambda>x. msgid x = k) es)" by simp
  with ne(1) show ?thesis by simp
qed

lemma import_item_absent:
  assumes "dict_get item ''msgid'' JNull = Inr (JStr k)"
    and "lookup k = Some entry" and "k \<noteq> []"
    and "\<not> is_verified entry"
    and "dict_get item ''msgstr'' JNull = Inr JNull"
  shows "import_item lookup acc item = Inr acc"
  using assms by (simp add: import_item_def)

lemma import_items_drop:
  assumes "\<And>a. import_item lookup a item = Inr a"
  shows "import_items lookup acc (xs @ item # ys) = import_items lookup acc (xs @ ys)"
  using assms by (induction xs arbitrary: acc) (auto split: sum.splits)

text \<open>
  Claim C10: an item of the import whose id is that of an entry that is not verified, and
  whose translation is absent or null, changes nothing: the mapping, the error list
  and the set of skipped ids after the item are those before it. So the result of
  \<open>import_translations\<close> is the same with the item and without it, whether the items
  stand under \<open>translations\<close> or under \<open>entries\<close>.
\<close>

theorem absent_translation_dropped:
  assumes "dict_get item ''msgid'' JNull = Inr (JStr k)"
    and "msgid_to_entry es k = Some entry"
    and "\<not> is_verified entry"
    and "dict_get item ''msgstr'' JNull = Inr JNull"
  shows "import_item (msgid_to_entry es) acc item = Inr acc \<and>
         import_translations (JObj [(''translations'', JArr (xs @ item # ys))]) es =
           import_translations (JObj [(''translations'', JArr (xs @ ys))]) es \<and>
         import_translations (JObj [(''entries'', JArr (xs @ item # ys))]) es =
           import_translations (JObj [(''entries'', JArr (xs @ ys))]) es"
proof -
  from msgid_to_entry_SomeD[OF assms(2)] have k: "k \<noteq> []" by simp
  have step: "import_item (msgid_to_entry es) a item = Inr a" for a
    using assms(1) assms(2) k assms(3) assms(4)
    by (rule import_item_absent[where lookup = "msgid_to_entry es"])
  have t: "items_of (JObj [(''translations'', JArr zs)]) = Inr zs" for zs
    by (simp add: items_of_def)
  have e: "items_of (JObj [(''entries'', JArr zs)]) = Inr zs" for zs
    by (simp add: items_of_def)
  show ?thesis
    unfolding import_translations_def t e using step import_items_drop[of "msgid_to_entry es" item]
    by simp
qed

theorem absent_translation_dropped_witness:
  "dict_get (JObj [(''msgid'', JStr ''Cancel'')]) ''msgid'' JNull = Inr (JStr ''Cancel'') \<and>
   msgid_to_entry [new_POEntry\<lparr>msgid := ''Cancel''\<rparr>] ''Cancel'' = Some (new_POEntry\<lparr>msgid := ''Cancel''\<rparr>) \<and>
   \<not> is_verified (new_POEntry\<lparr>msgid := ''Cancel''\<rparr>) \<and>
   dict_get (JObj [(''msgid'', JStr ''Cancel'')]) ''msgstr'' JNull = Inr JNull \<and>
   import_translations (JObj [(''translations'', JArr [JObj [(''msgid'', JStr ''Cancel'')]])])
     [new_POEntry\<lparr>msgid := ''Cancel''\<rparr>] =
   Inr \<lparr>acc_translations = Map.empty, acc_errors = [], acc_skipped_verified = {}\<rparr>"
proof -
  let ?item = "JObj [(''msgid'', JStr ''Cancel'')]"
  let ?e = "new_POEntry\<lparr>msgid := ''Cancel''\<rparr>"
  have h1: "dict_get ?item ''msgid'' JNull = Inr (JStr ''Cancel'')" by simp
  have h2: "msgid_to_entry [?e] ''Cancel'' = Some ?e" by (simp add: msgid_to_entry_def)
  have h3: "\<not> is_verified ?e" by (simp add: is_verified_def is_translated_def new_POEntry_def)
  have h4: "dict_get ?item ''msgstr'' JNull = Inr JNull" by simp
  from absent_translation_dropped[OF h1 h2 h3 h4, of _ "[]" "[]"]
  have "import_translations (JObj [(''translations'', JArr [?item])]) [?e] =
        import_translations (JObj [(''translations'', JArr [])]) [?e]"
    by simp
  also have "\<dots> = Inr \<lparr>acc_translations = Map.empty, acc_errors = [], acc_skipped_verified = {}\<rparr>"
    by (simp add: import_translations_def items_of_def)
  finally show ?thesis using h1 h2 h3 h4 by (intro conjI)
qed


lemma apply_translations_map:
  "fst (apply_translations es tr) =
     map (\<lambda>e. case tr (msgid e) of
                 None \<Rightarrow> e
               | Some t \<Rightarrow> if is_verified e then e else e\<lparr>msgstr := t\<rparr>) es"
  by (induction es) (auto split: prod.splits option.splits)

lemma import_item_protect:
  assumes "lookup k = Some v" "is_verified v"
    and "import_item lookup acc item = Inr acc1"
    and "acc_translations acc k = None"
  shows "acc_translations acc1 k = None"
  using assms
  by (auto simp: import_item_def split: sum.splits if_splits json.splits option.splits)

lemma import_item_skipped_mono:
  assumes "import_item lookup acc item = Inr acc1"
  shows "acc_skipped_verified acc \<subseteq> acc_skipped_verified acc1"
  using assms
  by (auto simp: import_item_def split: sum.splits if_splits json.splits option.splits)

lemma import_item_skips:
  assumes "lookup k = Some v" "is_verified v" "k \<noteq> []"
    and "dict_get item ''msgid'' JNull = Inr (JStr k)"
    and "import_item lookup acc item = Inr acc1"
  shows "k \<in> acc_skipped_verified acc1"
  using assms
  by (auto simp: import_item_def split: sum.splits if_splits json.splits option.splits)

lemma import_items_protect:
  assumes "lookup k = Some v" "is_verified v"
  shows "import_items lookup acc xs = Inr acc1 \<Longrightarrow> acc_translations acc k = None \<Longrightarrow>
         acc_translations acc1 k = None"
proof (induction xs arbitrary: acc)
  case Nil
  then show ?case by simp
next
  case (Cons x xs)
  from Cons.prems(1) obtain a where a: "import_item lookup acc x = Inr a"
    "import_items lookup a xs = Inr acc1"
    by (auto split: sum.splits)
  from import_item_protect[OF assms a(1) Cons.prems(2)] have "acc_translations a k = None" .
  from Cons.IH[OF a(2) this] show ?case .
qed

lemma import_items_skipped_mono:
  "import_items lookup acc xs = Inr acc1 \<Longrightarrow> acc_skipped_verified acc \<subseteq> acc_skipped_verified acc1"
proof (induction xs arbitrary: acc)
  case Nil
  then show ?case by simp
next
  case (Cons x xs)
  from Cons.prems obtain a where a: "import_item lookup acc x = Inr a"
    "import_items lookup a xs = Inr acc1"
    by (auto split: sum.splits)
  from import_item_skipped_mono[OF a(1)] Cons.IH[OF a(2)] show ?case by blast
qed

lemma import_items_skips:
  assumes "lookup k = Some v" "is_verified v" "k \<noteq> []"
  shows "import_items lookup acc xs = Inr acc1 \<Longrightarrow> item \<in> set xs \<Longrightarrow>
         dict_get item ''msgid'' JNull = Inr (JStr k) \<Longrightarrow> k \<in> acc_skipped_verified acc1"
proof (induction xs arbitrary: acc)
  case Nil
  then show ?case by simp
next
  case (Cons x xs)
  from Cons.prems(1) obtain a where a: "import_item lookup acc x = Inr a"
    "import_items lookup a xs = Inr acc1"
    by (auto split: sum.splits)
  show ?case
  proof (cases "item = x")
    case True
    with import_item_skips[OF assms _ a(1)] Cons.prems(3) have "k \<in> acc_skipped_verified a" by simp
    with import_items_skipped_mono[OF a(2)] show ?thesis by blast
  next
    case False
    with Cons.prems(2) have "item \<in> set xs" by simp
    from Cons.IH[OF a(2) this Cons.prems(3)] show ?thesis .
  qed
qed

text \<open>
  Claim C1, amended: a verified entry is in the result of \<open>filter_entries\<close> in no mode,
  and \<open>apply_translations\<close> leaves it as it is whatever the mapping holds. When the
  last entry of the list with its id is verified (so whenever the ids of the list are
  distinct), \<open>import_translations\<close> does not put its id in the mapping, and puts the id
  in the set of skipped ids as soon as it is not empty and an item carries it.
\<close>

theorem verified_protected:
  assumes "e \<in> set es" and "is_verified e"
  shows "e \<notin> set (filter_entries es mode) \<and>
         length (fst (apply_translations es tr)) = length es \<and>
         (\<forall>i<length es. es ! i = e \<longrightarrow> fst (apply_translations es tr) ! i = e) \<and>
         (is_verified (last (filter (\<lambda>x. msgid x = msgid e) es)) \<longrightarrow>
          items_of data = Inr items \<longrightarrow> import_translations data es = Inr acc \<longrightarrow>
            acc_translations acc (msgid e) = None \<and>
            (msgid e \<noteq> [] \<longrightarrow>
             (\<exists>item\<in>set items. dict_get item ''msgid'' JNull = Inr (JStr (msgid e))) \<longrightarrow>
               msgid e \<in> acc_skipped_verified acc))"
proof -
  have a: "e \<notin> set (filter_entries es mode)"
    using assms(2) by (simp add: filter_entries_def keeps_def)
  have b: "length (fst (apply_translations es tr)) = length es"
    by (simp add: apply_translations_map)
  have c: "\<forall>i<length es. es ! i = e \<longrightarrow> fst (apply_translations es tr) ! i = e"
    using assms(2) by (auto simp: apply_translations_map split: option.splits)
  have d: "acc_translations acc (msgid e) = None \<and>
            (msgid e \<noteq> [] \<longrightarrow>
             (\<exists>item\<in>set items. dict_get item ''msgid'' JNull = Inr (JStr (msgid e))) \<longrightarrow>
               msgid e \<in> acc_skipped_verified acc)"
    if v: "is_verified (last (filter (\<lambda>x. msgid x = msgid e) es))"
      and it: "items_of data = Inr items" and im: "import_translations data es = Inr acc"
  proof -
    let ?init = "\<lparr>acc_translations = Map.empty, acc_errors = [], acc_skipped_verified = {}\<rparr>"
    from it im have run: "import_items (msgid_to_entry es) ?init items = Inr acc"
      by (simp add: import_translations_def)
    have ne: "filter (\<lambda>x. msgid x = msgid e) es \<noteq> []"
      using assms(1) by (auto simp: filter_empty_conv)
    show ?thesis
    proof (cases "msgid e = []")
      case True
      have "acc_translations acc1 [] = None"
        if "import_items (msgid_to_entry es) acc0 xs = Inr acc1" "acc_translations acc0 [] = None"
        for acc0 acc1 xs
        using that
      proof (induction xs arbitrary: acc0)
        case Nil
        then show ?case by simp
      next
        case (Cons x xs)
        from Cons.prems(1) obtain a0 where a0: "import_item (msgid_to_entry es) acc0 x = Inr a0"
          "import_items (msgid_to_entry es) a0 xs = Inr acc1"
          by (auto split: sum.splits)
        from a0(1) Cons.prems(2) have "acc_translations a0 [] = None"
          by (auto simp: import_item_def split: sum.splits if_splits json.splits option.splits)
        from Cons.IH[OF a0(2) this] show ?case .
      qed
      from this[OF run] True show ?thesis by simp
    next
      case False
      with ne have lk: "msgid_to_entry es (msgid e) = Some (last (filter (\<lambda>x. msgid x = msgid e) es))"
        by (simp add: msgid_to_entry_last)
      from import_items_protect[OF lk v run] have "acc_translations acc (msgid e) = None" by simp
      moreover have "msgid e \<in> acc_skipped_verified acc"
        if "\<exists>item\<in>set items. dict_get item ''msgid'' JNull = Inr (JStr (msgid e))"
        using that import_items_skips[OF lk v False run] by blast
      ultimately show ?thesis by blast
    qed
  qed
  from a b c d show ?thesis by blast
qed


theorem verified_protected_witness:
  "new_POEntry\<lparr>msgid := ''Cancel'', msgstr := ''Annuler''\<rparr>
     \<in> set [new_POEntry\<lparr>msgid := ''Cancel'', msgstr := ''Annuler''\<rparr>] \<and>
   is_verified (new_POEntry\<lparr>msgid := ''Cancel'', msgstr := ''Annuler''\<rparr>) \<and>
   items_of (JObj [(''translations'',
               JArr [JObj [(''msgid'', JStr ''Cancel''), (''msgstr'', JStr ''Abbrechen'')]])]) =
     Inr [JObj [(''msgid'', JStr ''Cancel''), (''msgstr'', JStr ''Abbrechen'')]] \<and>
   import_translations
     (JObj [(''translations'',
               JArr [JObj [(''msgid'', JStr ''Cancel''), (''msgstr'', JStr ''Abbrechen'')]])])
     [new_POEntry\<lparr>msgid := ''Cancel'', msgstr := ''Annuler''\<rparr>] =
     Inr \<lparr>acc_translations = Map.empty, acc_errors = [], acc_skipped_verified = {''Cancel''}\<rparr> \<and>
   new_POEntry\<lparr>msgid := ''Cancel'', msgstr := ''Annuler''\<rparr>
     \<notin> set (filter_entries [new_POEntry\<lparr>msgid := ''Cancel'', msgstr := ''Annuler''\<rparr>] ''all'') \<and>
   fst (apply_translations [new_POEntry\<lparr>msgid := ''Cancel'', msgstr := ''Annuler''\<rparr>]
          [''Cancel'' \<mapsto> ''Abbrechen'']) ! 0 =
     new_POEntry\<lparr>msgid := ''Cancel'', msgstr := ''Annuler''\<rparr> \<and>
   acc_translations
     \<lparr>acc_translations = Map.empty, acc_errors = [], acc_skipped_verified = {''Cancel''}\<rparr>
     ''Cancel'' = None \<and>
   ''Cancel'' \<in> acc_skipped_verified
     \<lparr>acc_translations = Map.empty, acc_errors = [], acc_skipped_verified = {''Cancel''}\<rparr>"
proof -
  let ?v = "new_POEntry\<lparr>msgid := ''Cancel'', msgstr := ''Annuler''\<rparr>"
  let ?item = "JObj [(''msgid'', JStr ''Cancel''), (''msgstr'', JStr ''Abbrechen'')]"
  let ?data = "JObj [(''translations'', JArr [?item])]"
  let ?acc = "\<lparr>acc_translations = Map.empty, acc_errors = [], acc_skipped_verified = {''Cancel''}\<rparr>"
  have h1: "?v \<in> set [?v]" by simp
  have h2: "is_verified ?v"
    by (simp add: is_verified_def is_translated_def is_fuzzy_def new_POEntry_def)
  have h3: "is_verified (last (filter (\<lambda>x. msgid x = msgid ?v) [?v]))" using h2 by simp
  have h4: "items_of ?data = Inr [?item]" by (simp add: items_of_def)
  have h5: "import_translations ?data [?v] = Inr ?acc"
    using h2 by (simp add: import_translations_def h4 import_item_def msgid_to_entry_def)
  have h6: "msgid ?v \<noteq> []" by simp
  have h7: "\<exists>item\<in>set [?item]. dict_get item ''msgid'' JNull = Inr (JStr (msgid ?v))" by simp
  note T = verified_protected[OF h1 h2, of "''all''" "[''Cancel'' \<mapsto> ''Abbrechen'']" ?data "[?item]" ?acc]
  from T have c1: "?v \<notin> set (filter_entries [?v] ''all'')" by (rule conjunct1)
  from T have "\<forall>i<length [?v]. [?v] ! i = ?v \<longrightarrow>
                 fst (apply_translations [?v] [''Cancel'' \<mapsto> ''Abbrechen'']) ! i = ?v"
    by blast
  then have c2: "fst (apply_translations [?v] [''Cancel'' \<mapsto> ''Abbrechen'']) ! 0 = ?v" by simp
  from T h3 h4 h5 have c3: "acc_translations ?acc (msgid ?v) = None \<and>
            (msgid ?v \<noteq> [] \<longrightarrow>
             (\<exists>item\<in>set [?item]. dict_get item ''msgid'' JNull = Inr (JStr (msgid ?v))) \<longrightarrow>
               msgid ?v \<in> acc_skipped_verified ?acc)"
    by blast
  from c3 have c4: "acc_translations ?acc ''Cancel'' = None" by simp
  from c3 h6 h7 have c5: "''Cancel'' \<in> acc_skipped_verified ?acc" by simp
  from h1 h2 h4 h5 c1 c2 c4 c5 show ?thesis by (intro conjI)
qed

text \<open>
  Claim C1 as stated fails for \<open>import_translations\<close> on a list where an entry that is
  not verified follows a verified entry of the same id: the lookup by id keeps the later
  entry, the id of the verified entry is put in the mapping and is not recorded as
  skipped.
\<close>

theorem duplicate_id_counterexample:
  "is_verified (new_POEntry\<lparr>msgid := ''Cancel'', msgstr := ''Annuler''\<rparr>) \<and>
   map_sum id (\<lambda>acc. (acc_translations acc ''Cancel'', ''Cancel'' \<in> acc_skipped_verified acc))
     (import_translations
        (JObj [(''translations'',
                  JArr [JObj [(''msgid'', JStr ''Cancel''), (''msgstr'', JStr ''Abbrechen'')]])])
        [new_POEntry\<lparr>msgid := ''Cancel'', msgstr := ''Annuler''\<rparr>,
         new_POEntry\<lparr>msgid := ''Cancel''\<rparr>]) =
     Inr (Some (JStr ''Abbrechen''), False)"
  by (simp add: is_verified_def is_translated_def is_fuzzy_def new_POEntry_def
      import_translations_def items_of_def import_item_def msgid_to_entry_def)


section \<open>The flags line\<close>

lemma write_comments_eq:
  "write_comments rm add w cs =
     (concat (map (\<lambda>c. if is_flag_line c then write_flag_line rm add c else [c]) cs),
      w \<or> list_ex is_flag_line cs)"
  by (induction cs arbitrary: w) (auto simp: is_flag_line_def)

lemma write_entry_comments_eq:
  "write_entry_comments rm add cs =
     concat (map (\<lambda>c. if is_flag_line c then write_flag_line rm add c else [c]) cs) @
     (if add \<and> \<not> list_ex is_flag_line cs then [''#, fuzzy''] else [])"
  by (simp add: write_entry_comments_def write_comments_eq)

lemma concat_no_flag:
  "\<not> list_ex is_flag_line cs \<Longrightarrow>
   concat (map (\<lambda>c. if is_flag_line c then write_flag_line rm add c else [c]) cs) = cs"
  by (induction cs) auto

lemma last_ref_index_none:
  "\<not> list_ex is_reference_line cs \<Longrightarrow> last_ref_index r i cs = r"
  by (induction cs arbitrary: r i) (auto simp: is_reference_line_def)

lemma last_ref_index_last:
  "is_reference_line x \<Longrightarrow> \<not> list_ex is_reference_line post \<Longrightarrow>
   last_ref_index r i (pre @ x # post) = i + int (length pre)"
proof (induction pre arbitrary: r i)
  case Nil
  from last_ref_index_none[OF Nil.prems(2), of i "i + 1"] Nil.prems(1)
  show ?case by (simp add: is_reference_line_def)
next
  case (Cons p pre)
  from Cons.IH[OF Cons.prems, of _ "i + 1"] show ?case by simp
qed

lemma add_fuzzy_comments:
  assumes "''fuzzy'' \<notin> set (flags e)" "\<not> list_ex is_flag_line (comments e)"
  shows "comments (add_fuzzy e) =
           take (nat (last_ref_index (- 1) 0 (comments e) + 1)) (comments e) @ [''#, fuzzy''] @
           drop (nat (last_ref_index (- 1) 0 (comments e) + 1)) (comments e)"
  using assms unfolding is_flag_line_def[abs_def] by (simp add: add_fuzzy_def Let_def)

lemma py_split_not_Nil [simp]: "py_split sep s \<noteq> []"
  by (induction s) (auto split: list.splits)

lemma write_flag_line_add:
  "\<exists>fl. write_flag_line rm True c = [''#, '' @ py_join '', '' fl] \<and> ''fuzzy'' \<in> set fl \<and>
        filter (\<lambda>x. x \<noteq> ''fuzzy'') fl =
        filter (\<lambda>x. x \<noteq> ''fuzzy'') (map py_strip (py_split (CHR '','') (drop 2 c)))"
proof -
  let ?fl0 = "map py_strip (py_split (CHR '','') (drop 2 c))"
  let ?fl1 = "if rm then filter (\<lambda>fl. fl \<noteq> ''fuzzy'') ?fl0 else ?fl0"
  let ?fl2 = "if ''fuzzy'' \<notin> set ?fl1 then ?fl1 @ [''fuzzy''] else ?fl1"
  have "write_flag_line rm True c = [''#, '' @ py_join '', '' ?fl2]"
    by (auto simp: write_flag_line_def Let_def)
  moreover have "''fuzzy'' \<in> set ?fl2" by auto
  moreover have "filter (\<lambda>x. x \<noteq> ''fuzzy'') ?fl2 = filter (\<lambda>x. x \<noteq> ''fuzzy'') ?fl0"
    by auto
  ultimately show ?thesis by blast
qed

text \<open>
  Claim C9, amended. The writer goes through the comments in their order: a comment that
  is no flags line is written as it is, and every flags line is written again from its
  flags, stripped and joined by a comma and a space, without \<open>fuzzy\<close> when it is to be
  removed (the line is left out when no flag remains) and with \<open>fuzzy\<close> at the end when
  it is to be added and is not there. When \<open>fuzzy\<close> is to be added and the entry has no
  flags line, the line \<open>#, fuzzy\<close> is written after all the comments of the entry. The
  placement after the last reference comment, or at the start when there is none, is
  that of \<open>add_fuzzy\<close>, which changes the entry in memory.
\<close>

theorem fuzzy_line_placement:
  "write_entry_comments rm add cs =
     concat (map (\<lambda>c. if is_flag_line c then write_flag_line rm add c else [c]) cs) @
     (if add \<and> \<not> list_ex is_flag_line cs then [''#, fuzzy''] else []) \<and>
   (\<not> list_ex is_flag_line cs \<longrightarrow> write_entry_comments rm True cs = cs @ [''#, fuzzy'']) \<and>
   (''fuzzy'' \<notin> set (flags e) \<longrightarrow> \<not> list_ex is_flag_line (comments e) \<longrightarrow>
      (\<not> list_ex is_reference_line (comments e) \<longrightarrow>
         comments (add_fuzzy e) = ''#, fuzzy'' # comments e) \<and>
      (\<forall>pre x post. comments e = pre @ x # post \<longrightarrow> is_reference_line x \<longrightarrow>
         \<not> list_ex is_reference_line post \<longrightarrow>
         comments (add_fuzzy e) = pre @ x # ''#, fuzzy'' # post)) \<and>
   (\<exists>fl. write_flag_line rm True c = [''#, '' @ py_join '', '' fl] \<and> ''fuzzy'' \<in> set fl \<and>
         filter (\<lambda>x. x \<noteq> ''fuzzy'') fl =
         filter (\<lambda>x. x \<noteq> ''fuzzy'') (map py_strip (py_split (CHR '','') (drop 2 c)))) \<and>
   write_flag_line True False c =
     (if filter (\<lambda>x. x \<noteq> ''fuzzy'') (map py_strip (py_split (CHR '','') (drop 2 c))) = [] then []
      else [''#, '' @ py_join '', ''
              (filter (\<lambda>x. x \<noteq> ''fuzzy'') (map py_strip (py_split (CHR '','') (drop 2 c))))]) \<and>
   write_flag_line False False c =
     [''#, '' @ py_join '', '' (map py_strip (py_split (CHR '','') (drop 2 c)))]"
proof (intro conjI impI allI)
  show "\<exists>fl. write_flag_line rm True c = [''#, '' @ py_join '', '' fl] \<and> ''fuzzy'' \<in> set fl \<and>
         filter (\<lambda>x. x \<noteq> ''fuzzy'') fl =
         filter (\<lambda>x. x \<noteq> ''fuzzy'') (map py_strip (py_split (CHR '','') (drop 2 c)))"
    by (rule write_flag_line_add)
next
  show "write_flag_line True False c =
     (if filter (\<lambda>x. x \<noteq> ''fuzzy'') (map py_strip (py_split (CHR '','') (drop 2 c))) = [] then []
      else [''#, '' @ py_join '', ''
              (filter (\<lambda>x. x \<noteq> ''fuzzy'') (map py_strip (py_split (CHR '','') (drop 2 c))))])"
    by (simp add: write_flag_line_def Let_def)
next
  show "write_flag_line False False c =
     [''#, '' @ py_join '', '' (map py_strip (py_split (CHR '','') (drop 2 c)))]"
    by (simp add: write_flag_line_def Let_def)
next
  show "write_entry_comments rm add cs =
     concat (map (\<lambda>c. if is_flag_line c then write_flag_line rm add c else [c]) cs) @
     (if add \<and> \<not> list_ex is_flag_line cs then [''#, fuzzy''] else [])"
    by (rule write_entry_comments_eq)
next
  assume "\<not> list_ex is_flag_line cs"
  then show "write_entry_comments rm True cs = cs @ [''#, fuzzy'']"
    by (simp add: write_entry_comments_eq concat_no_flag)
next
  assume a: "''fuzzy'' \<notin> set (flags e)" "\<not> list_ex is_flag_line (comments e)"
    "\<not> list_ex is_reference_line (comments e)"
  show "comments (add_fuzzy e) = ''#, fuzzy'' # comments e"
    unfolding add_fuzzy_comments[OF a(1,2)] using last_ref_index_none[OF a(3)] by simp
next
  fix pre x post
  assume a: "''fuzzy'' \<notin> set (flags e)" "\<not> list_ex is_flag_line (comments e)"
    "comments e = pre @ x # post" "is_reference_line x" "\<not> list_ex is_reference_line post"
  have "last_ref_index (- 1) 0 (comments e) = int (length pre)"
    unfolding a(3) using last_ref_index_last[OF a(4,5)] by simp
  moreover have "nat (int (length pre) + 1) = Suc (length pre)" by simp
  ultimately show "comments (add_fuzzy e) = pre @ x # ''#, fuzzy'' # post"
    unfolding add_fuzzy_comments[OF a(1,2)] by (simp add: a(3))
qed


theorem fuzzy_line_placement_witness:
  "\<not> list_ex is_flag_line [''#: main.lua:10'', ''# note''] \<and>
   is_reference_line ''#: main.lua:10'' \<and>
   \<not> list_ex is_reference_line [''# note''] \<and>
   write_entry_comments False True [''#: main.lua:10'', ''# note''] =
     [''#: main.lua:10'', ''# note'', ''#, fuzzy''] \<and>
   comments (add_fuzzy (new_POEntry\<lparr>comments := [''#: main.lua:10'', ''# note'']\<rparr>)) =
     [''#: main.lua:10'', ''#, fuzzy'', ''# note'']"
proof -
  let ?cs = "[''#: main.lua:10'', ''# note'']"
  let ?e = "new_POEntry\<lparr>comments := ?cs\<rparr>"
  have h1: "\<not> list_ex is_flag_line ?cs" by (simp add: is_flag_line_def startswith_def)
  have h2: "is_reference_line ''#: main.lua:10''" by (simp add: is_reference_line_def startswith_def)
  have h3: "\<not> list_ex is_reference_line [''# note'']"
    by (simp add: is_reference_line_def startswith_def)
  have h4: "''fuzzy'' \<notin> set (flags ?e)" by (simp add: new_POEntry_def)
  have h5: "\<not> list_ex is_flag_line (comments ?e)" using h1 by simp
  have h6: "comments ?e = [] @ ''#: main.lua:10'' # [''# note'']" by simp
  note T = fuzzy_line_placement[of False True ?cs ?e]
  from T h1 have c1: "write_entry_comments False True ?cs = ?cs @ [''#, fuzzy'']" by blast
  from T h4 h5 have "\<forall>pre x post. comments ?e = pre @ x # post \<longrightarrow> is_reference_line x \<longrightarrow>
         \<not> list_ex is_reference_line post \<longrightarrow>
         comments (add_fuzzy ?e) = pre @ x # ''#, fuzzy'' # post"
    by blast
  from this h6 h2 h3 have c2: "comments (add_fuzzy ?e) = [] @ ''#: main.lua:10'' # ''#, fuzzy'' # [''# note'']"
    by blast
  from h1 h2 h3 c1 c2 show ?thesis by simp
qed

text \<open>
  Claim C9 as stated fails for the writer: with the only comment \<open># note\<close> and no
  reference, the synthesized flags line is written after the comment, not at the start;
  with a reference comment followed by \<open># note\<close>, it is written after \<open># note\<close>, not
  immediately after the reference.
\<close>

theorem synthesized_line_counterexample:
  "write_po_file [new_POEntry\<lparr>comments := [''# note''], msgid := ''a''\<rparr>] {} {''a''} =
     ''# note'' @ [NL] @ ''#, fuzzy'' @ [NL] @ ''msgid '' @ in_quotes ''a'' @ [NL] @
     ''msgstr '' @ in_quotes [] @ [NL] \<and>
   write_po_file [new_POEntry\<lparr>comments := [''#: main.lua:10'', ''# note''], msgid := ''a''\<rparr>]
     {} {''a''} =
     ''#: main.lua:10'' @ [NL] @ ''# note'' @ [NL] @ ''#, fuzzy'' @ [NL] @
     ''msgid '' @ in_quotes ''a'' @ [NL] @ ''msgstr '' @ in_quotes [] @ [NL]"
  by (simp add: write_po_file_def write_entry_def write_entry_comments_def write_msgid_def
      format_msgstr_for_po_def write_msgstr_plural_def escape_po_string_def startswith_def
      in_quotes_def is_verified_def is_translated_def new_POEntry_def)

end
